theory Spec2Isabelle
  imports Main "HOL-Library.AList" "HOL-Library.Sublist"
begin

section \<open>Data model of the reactive IR\<close>

text \<open>
  The pass \<^verbatim>\<open>propagateScopeDependencies\<close> walks a reactive function and fills in, for
  every reactive scope, its dependencies, its declarations and its reassignments. The HIR
  module that declares the IR types is imported by the pass; the types below carry the
  fields the pass reads or writes.

  An identifier object is never created or changed by the pass and is represented by its
  field values. A reactive scope is a mutable object shared between block items,
  identifiers and declaration records: it is represented by its address (\<open>ScopeId\<close>), and
  the objects live in a store that the pass threads through. A dependency descriptor is
  an object that the pass allocates and keeps in JavaScript sets, which compare by
  reference: every descriptor carries the reference it was allocated at.
\<close>

type_synonym IdentifierId = nat
type_synonym InstructionId = nat
type_synonym ScopeId = nat

record Identifier =
  identifier_id :: IdentifierId
  name :: "string option"
  mutableRange_start :: InstructionId
  identifier_scope :: "ScopeId option"

record Place =
  place_identifier :: Identifier

datatype InstructionKind = InstrConst | InstrLet | InstrReassign

record LValue =
  lvalue_place :: Place
  lvalue_kind :: InstructionKind

record ReactiveScopeDependency =
  dep_ref :: nat
  place :: Place
  path :: "string list option"

record ReactiveScope =
  range_start :: InstructionId
  range_end :: InstructionId
  dependencies :: "ReactiveScopeDependency list"
  declarations :: "(IdentifierId \<times> Identifier) list"
  reassignments :: "Identifier list"

datatype ReactiveValue =
    LogicalExpression ReactiveValue ReactiveValue
  | ConditionalExpression ReactiveValue ReactiveValue ReactiveValue
  | SequenceExpression "ReactiveInstruction list" ReactiveValue
  | PropertyLoad Place string
  | OtherValue "Place list"
and ReactiveInstruction =
    ReactiveInstruction (instr_lvalue: "LValue option") (instr_value: ReactiveValue)

datatype ReactiveStatement =
    ScopeItem ScopeId "ReactiveStatement list"
  | InstructionItem ReactiveInstruction
  | TerminalItem ReactiveTerminal
and ReactiveTerminal =
    Break
  | Continue
  | Return "Place option"
  | Throw Place
  | For ReactiveValue ReactiveValue ReactiveValue "ReactiveStatement list"
  | While ReactiveValue "ReactiveStatement list"
  | If Place "ReactiveStatement list" "ReactiveStatement list option"
  | Switch Place "SwitchCase list"
and SwitchCase =
    SwitchCase (case_test: "Place option") (case_block: "ReactiveStatement list option")

type_synonym ReactiveBlock = "ReactiveStatement list"

record ReactiveFunction =
  fn_id :: "Identifier option"
  params :: "Place list"
  body :: ReactiveBlock

section \<open>The traversal context\<close>

datatype DeclKind = Const | Dynamic

record Decl =
  kind :: DeclKind
  decl_id :: InstructionId
  decl_scope :: "ScopeId option"

text \<open>
  The five private fields of the class \<^verbatim>\<open>Context\<close>, the store of scope objects and the
  next free reference for a dependency descriptor. JavaScript sets and maps keep insertion
  order: a set is a list without repetition, the declarations of a scope an association
  list.
\<close>

record Context =
  ctx_declarations :: "IdentifierId \<rightharpoonup> Decl"
  ctx_dependencies :: "ReactiveScopeDependency list"
  reactiveIdentifiers :: "Identifier set"
  properties :: "Identifier \<rightharpoonup> ReactiveScopeDependency"
  scopes :: "ScopeId list"
  store :: "ScopeId \<Rightarrow> ReactiveScope"
  next_ref :: nat

definition set_add :: "'a \<Rightarrow> 'a list \<Rightarrow> 'a list" where
  "set_add x xs = (if x \<in> set xs then xs else xs @ [x])"

definition set_delete :: "'a \<Rightarrow> 'a list \<Rightarrow> 'a list" where
  "set_delete x xs = removeAll x xs"

definition newContext :: "Identifier set \<Rightarrow> (ScopeId \<Rightarrow> ReactiveScope) \<Rightarrow> Context" where
  "newContext reactive st =
     \<lparr> ctx_declarations = Map.empty, ctx_dependencies = [], reactiveIdentifiers = reactive,
       properties = Map.empty, scopes = [], store = st, next_ref = 0 \<rparr>"

definition enter ::
  "Context \<Rightarrow> ScopeId \<Rightarrow> (Context \<Rightarrow> Context) \<Rightarrow> ReactiveScopeDependency list \<times> Context" where
  "enter c scope fn =
     (let previousDependencies = ctx_dependencies c;
          c1 = c\<lparr>ctx_dependencies := [], scopes := scopes c @ [scope]\<rparr>;
          c2 = fn c1;
          scopedDependencies = ctx_dependencies c2
      in (scopedDependencies,
          c2\<lparr>scopes := butlast (scopes c2), ctx_dependencies := previousDependencies\<rparr>))"

definition declare_decl :: "Context \<Rightarrow> Identifier \<Rightarrow> Decl \<Rightarrow> Context" where
  "declare_decl c ident decl =
     c\<lparr>ctx_declarations := (ctx_declarations c)(identifier_id ident \<mapsto> decl)\<rparr>"

definition nextDependency :: "Context \<Rightarrow> Place \<Rightarrow> string \<Rightarrow> ReactiveScopeDependency" where
  "nextDependency c object property =
     (case properties c (place_identifier object) of
        None \<Rightarrow> \<lparr>dep_ref = next_ref c, place = object, path = Some [property]\<rparr>
      | Some objectDependency \<Rightarrow>
          \<lparr>dep_ref = next_ref c, place = place objectDependency,
           path = Some ((case path objectDependency of None \<Rightarrow> [] | Some p \<Rightarrow> p) @ [property])\<rparr>)"

definition declareProperty :: "Context \<Rightarrow> Place \<Rightarrow> Place \<Rightarrow> string \<Rightarrow> Context" where
  "declareProperty c lvalue object property =
     c\<lparr>properties := (properties c)(place_identifier lvalue \<mapsto> nextDependency c object property),
       next_ref := Suc (next_ref c)\<rparr>"

definition isScopeActive :: "Context \<Rightarrow> ScopeId \<Rightarrow> bool" where
  "isScopeActive c scope = (scope \<in> set (scopes c))"

definition currentScope :: "Context \<Rightarrow> ScopeId option" where
  "currentScope c = (if scopes c = [] then None else Some (last (scopes c)))"

definition isReactive :: "Context \<Rightarrow> Identifier \<Rightarrow> bool" where
  "isReactive c ident = (ident \<in> reactiveIdentifiers c)"

text \<open>The \<^verbatim>\<open>while\<close> loop that counts the common leading keys of two paths.\<close>

function commonPathIndex :: "string list \<Rightarrow> string list \<Rightarrow> nat \<Rightarrow> nat" where
  "commonPathIndex operandPath depPath i =
     (if i < length operandPath \<and> i < length depPath \<and> operandPath ! i = depPath ! i
      then commonPathIndex operandPath depPath (Suc i) else i)"
  by pat_completeness auto
termination
  by (relation "measure (\<lambda>(operandPath, depPath, i). length operandPath - i)") auto

declare commonPathIndex.simps [simp del]

text \<open>
  The \<^verbatim>\<open>for\<close> loop of \<^verbatim>\<open>visitDependency\<close> over the working set, with its three early
  returns, followed by the final \<^verbatim>\<open>add\<close>. The first argument is what remains to be
  scanned, the last the working set itself.
\<close>

fun mergeDependency ::
  "ReactiveScopeDependency list \<Rightarrow> ReactiveScopeDependency \<Rightarrow> ReactiveScopeDependency list
     \<Rightarrow> ReactiveScopeDependency list" where
  "mergeDependency [] maybeDependency deps = set_add maybeDependency deps"
| "mergeDependency (dep # rest) maybeDependency deps =
     (if identifier_id (place_identifier (place dep)) \<noteq> identifier_id (place_identifier (place maybeDependency))
      then mergeDependency rest maybeDependency deps
      else case path dep of
        None \<Rightarrow> deps
      | Some depPath \<Rightarrow>
          (case path maybeDependency of
             None \<Rightarrow> set_add maybeDependency (set_delete dep deps)
           | Some operandPath \<Rightarrow>
               if commonPathIndex operandPath depPath 0 = length depPath then deps
               else mergeDependency rest maybeDependency deps))"

definition visitDependency :: "Context \<Rightarrow> ReactiveScopeDependency \<Rightarrow> Context" where
  "visitDependency c dependency =
     (let maybeDependency =
            (if path dependency \<noteq> None then dependency
             else case properties c (place_identifier (place dependency)) of
                    Some propDep \<Rightarrow>
                      if name (place_identifier (place dependency)) = None then propDep else dependency
                  | None \<Rightarrow> dependency);
          root = place_identifier (place maybeDependency);
          decl = ctx_declarations c (identifier_id root);
          c1 = (case decl of
                  None \<Rightarrow> c
                | Some d \<Rightarrow>
                    (case decl_scope d of
                       None \<Rightarrow> c
                     | Some s \<Rightarrow>
                         if \<not> isScopeActive c s
                         then c\<lparr>store := (store c)(s := (store c s)
                                \<lparr>declarations :=
                                   AList.update (identifier_id root) root (declarations (store c s))\<rparr>)\<rparr>
                         else c))
      in case currentScope c1 of
           None \<Rightarrow> c1
         | Some cs \<Rightarrow>
             (case decl of
                None \<Rightarrow> c1
              | Some d \<Rightarrow>
                  if kind d \<noteq> Const \<and> decl_id d < range_start (store c1 cs) \<and>
                     (decl_scope d = None \<or> \<not> isScopeActive c1 (the (decl_scope d)))
                  then c1\<lparr>ctx_dependencies :=
                            mergeDependency (ctx_dependencies c1) maybeDependency (ctx_dependencies c1)\<rparr>
                  else c1))"

definition visitOperand :: "Context \<Rightarrow> Place \<Rightarrow> Context" where
  "visitOperand c p =
     visitDependency (c\<lparr>next_ref := Suc (next_ref c)\<rparr>)
       \<lparr>dep_ref = next_ref c, place = p, path = None\<rparr>"

definition visitProperty :: "Context \<Rightarrow> Place \<Rightarrow> string \<Rightarrow> Context" where
  "visitProperty c object property =
     visitDependency (c\<lparr>next_ref := Suc (next_ref c)\<rparr>) (nextDependency c object property)"

definition visitReassignment :: "Context \<Rightarrow> LValue \<Rightarrow> Context" where
  "visitReassignment c lvalue =
     (if lvalue_kind lvalue \<noteq> InstrReassign then c
      else
        let ident = place_identifier (lvalue_place lvalue);
            declaration = ctx_declarations c (identifier_id ident)
        in case currentScope c of
             None \<Rightarrow> c
           | Some cs \<Rightarrow>
               (case declaration of
                  None \<Rightarrow> c
                | Some d \<Rightarrow>
                    if identifier_scope ident \<noteq> None \<and> decl_scope d \<noteq> identifier_scope ident
                    then c\<lparr>store := (store c)(cs := (store c cs)
                           \<lparr>reassignments := set_add ident (reassignments (store c cs))\<rparr>)\<rparr>
                    else c))"

section \<open>The tree walker\<close>

text \<open>
  The operand enumerators \<^verbatim>\<open>eachInstructionValueOperand\<close> and \<^verbatim>\<open>eachReactiveValueOperand\<close>
  and the reactivity analysis \<^verbatim>\<open>inferReactiveIdentifiers\<close> live in other modules: the walker
  takes them as parameters, so every result below holds whatever they compute.
\<close>

definition visitInstructionValue ::
  "(ReactiveValue \<Rightarrow> Place list) \<Rightarrow> Context \<Rightarrow> ReactiveValue \<Rightarrow> LValue option \<Rightarrow> Context" where
  "visitInstructionValue eachReactiveValueOperand c v lvalue =
     (case v of
        PropertyLoad object property \<Rightarrow>
          (case lvalue of
             Some lv \<Rightarrow> declareProperty c (lvalue_place lv) object property
           | None \<Rightarrow> visitProperty c object property)
      | _ \<Rightarrow> foldl visitOperand c (eachReactiveValueOperand v))"

definition visitInstruction ::
  "(ReactiveValue \<Rightarrow> Place list) \<Rightarrow> Context \<Rightarrow> ReactiveInstruction \<Rightarrow> Context" where
  "visitInstruction eachReactiveValueOperand c instr =
     (let lvalue = instr_lvalue instr;
          c1 = visitInstructionValue eachReactiveValueOperand c (instr_value instr) lvalue
      in case lvalue of
           None \<Rightarrow> c1
         | Some lv \<Rightarrow>
             let c2 = visitReassignment c1 lv;
                 ident = place_identifier (lvalue_place lv);
                 k = (if isReactive c2 ident then Dynamic else Const)
             in declare_decl c2 ident
                  \<lparr>kind = k, decl_id = mutableRange_start ident, decl_scope = currentScope c2\<rparr>)"

fun visitReactiveValue ::
  "(ReactiveValue \<Rightarrow> Place list) \<Rightarrow> (ReactiveValue \<Rightarrow> Place list) \<Rightarrow> Context \<Rightarrow> ReactiveValue
     \<Rightarrow> Context" where
  "visitReactiveValue eio ero c (LogicalExpression left right) =
     visitReactiveValue eio ero (visitReactiveValue eio ero c left) right"
| "visitReactiveValue eio ero c (ConditionalExpression test consequent alternate) =
     visitReactiveValue eio ero
       (visitReactiveValue eio ero (visitReactiveValue eio ero c test) consequent) alternate"
| "visitReactiveValue eio ero c (SequenceExpression instructions v) =
     visitInstructionValue ero (foldl (visitInstruction ero) c instructions) v None"
| "visitReactiveValue eio ero c (PropertyLoad object property) =
     foldl visitOperand c (eio (PropertyLoad object property))"
| "visitReactiveValue eio ero c (OtherValue operands) =
     foldl visitOperand c (eio (OtherValue operands))"

lemma enter_cong [fundef_cong]:
  "c = c' \<Longrightarrow> scope = scope' \<Longrightarrow> (\<And>x. fn x = fn' x) \<Longrightarrow> enter c scope fn = enter c' scope' fn'"
  by (simp add: enter_def)

fun visit ::
  "(ReactiveValue \<Rightarrow> Place list) \<Rightarrow> (ReactiveValue \<Rightarrow> Place list) \<Rightarrow> Context \<Rightarrow> ReactiveBlock
     \<Rightarrow> Context"
and visitItem ::
  "(ReactiveValue \<Rightarrow> Place list) \<Rightarrow> (ReactiveValue \<Rightarrow> Place list) \<Rightarrow> Context \<Rightarrow> ReactiveStatement
     \<Rightarrow> Context"
and visitTerminal ::
  "(ReactiveValue \<Rightarrow> Place list) \<Rightarrow> (ReactiveValue \<Rightarrow> Place list) \<Rightarrow> Context \<Rightarrow> ReactiveTerminal
     \<Rightarrow> Context"
and visitCases ::
  "(ReactiveValue \<Rightarrow> Place list) \<Rightarrow> (ReactiveValue \<Rightarrow> Place list) \<Rightarrow> Context \<Rightarrow> SwitchCase list
     \<Rightarrow> Context" where
  "visit eio ero c [] = c"
| "visit eio ero c (item # block) = visit eio ero (visitItem eio ero c item) block"
| "visitItem eio ero c (ScopeItem scope instructions) =
     (let (scopeDependencies, c1) = enter c scope (\<lambda>c'. visit eio ero c' instructions);
          c2 = c1\<lparr>store := (store c1)(scope := (store c1 scope)\<lparr>dependencies := scopeDependencies\<rparr>)\<rparr>
      in foldl visitDependency c2 scopeDependencies)"
| "visitItem eio ero c (InstructionItem instruction) = visitInstruction ero c instruction"
| "visitItem eio ero c (TerminalItem terminal) = visitTerminal eio ero c terminal"
| "visitTerminal eio ero c Break = c"
| "visitTerminal eio ero c Continue = c"
| "visitTerminal eio ero c (Return v) = (case v of None \<Rightarrow> c | Some p \<Rightarrow> visitOperand c p)"
| "visitTerminal eio ero c (Throw p) = visitOperand c p"
| "visitTerminal eio ero c (For init test update loop) =
     visit eio ero
       (visitReactiveValue eio ero
          (visitReactiveValue eio ero (visitReactiveValue eio ero c init) test) update) loop"
| "visitTerminal eio ero c (While test loop) = visit eio ero (visitReactiveValue eio ero c test) loop"
| "visitTerminal eio ero c (If test consequent alternate) =
     (let c1 = visit eio ero (visitOperand c test) consequent
      in case alternate of None \<Rightarrow> c1 | Some alt \<Rightarrow> visit eio ero c1 alt)"
| "visitTerminal eio ero c (Switch test cases) = visitCases eio ero (visitOperand c test) cases"
| "visitCases eio ero c [] = c"
| "visitCases eio ero c (SwitchCase t b # cases) =
     visitCases eio ero (case b of None \<Rightarrow> c | Some blk \<Rightarrow> visit eio ero c blk) cases"

text \<open>
  The entry point. \<^verbatim>\<open>makeInstructionId(0)\<close> is the instruction id 0. The result is the final
  context, whose store holds the scopes as the pass leaves them.
\<close>

definition initialContext ::
  "(ReactiveFunction \<Rightarrow> Identifier set) \<Rightarrow> ReactiveFunction \<Rightarrow> (ScopeId \<Rightarrow> ReactiveScope) \<Rightarrow> Context" where
  "initialContext inferReactiveIdentifiers fn st =
     (let context = newContext (inferReactiveIdentifiers fn) st;
          context1 = (case fn_id fn of
                        None \<Rightarrow> context
                      | Some i \<Rightarrow> declare_decl context i \<lparr>kind = Const, decl_id = 0, decl_scope = None\<rparr>)
      in foldl (\<lambda>ctx param. declare_decl ctx (place_identifier param)
                  \<lparr>kind = Dynamic, decl_id = 0, decl_scope = None\<rparr>) context1 (params fn))"

definition propagateScopeDependencies ::
  "(ReactiveFunction \<Rightarrow> Identifier set) \<Rightarrow> (ReactiveValue \<Rightarrow> Place list) \<Rightarrow> (ReactiveValue \<Rightarrow> Place list)
     \<Rightarrow> ReactiveFunction \<Rightarrow> (ScopeId \<Rightarrow> ReactiveScope) \<Rightarrow> Context" where
  "propagateScopeDependencies inferReactiveIdentifiers eio ero fn st =
     visit eio ero (initialContext inferReactiveIdentifiers fn st) (body fn)"

section \<open>The steps of the qualification and merge, as the specification words them\<close>

definition rootId :: "ReactiveScopeDependency \<Rightarrow> IdentifierId" where
  "rootId d = identifier_id (place_identifier (place d))"

text \<open>
  Alias resolution: a candidate with no path whose root identifier is anonymous and has a
  recorded alias is replaced by that alias.
\<close>

definition resolveAlias :: "Context \<Rightarrow> ReactiveScopeDependency \<Rightarrow> ReactiveScopeDependency" where
  "resolveAlias c d =
     (if path d = None \<and> name (place_identifier (place d)) = None
      then (case properties c (place_identifier (place d)) of None \<Rightarrow> d | Some alias \<Rightarrow> alias)
      else d)"

text \<open>
  Escape promotion: when the root was declared inside a scope that is no longer open, the
  root identifier is entered in the declarations of that scope.
\<close>

definition promoteEscape :: "Context \<Rightarrow> ReactiveScopeDependency \<Rightarrow> ScopeId \<Rightarrow> ReactiveScope" where
  "promoteEscape c cand =
     (case ctx_declarations c (rootId cand) of
        None \<Rightarrow> store c
      | Some d \<Rightarrow>
          (case decl_scope d of
             None \<Rightarrow> store c
           | Some s \<Rightarrow>
               if s \<in> set (scopes c) then store c
               else (store c)(s := (store c s)
                      \<lparr>declarations :=
                         AList.update (rootId cand) (place_identifier (place cand))
                           (declarations (store c s))\<rparr>)))"

text \<open>
  The qualification test: the current scope is non-null, a declaration record exists for the
  root, its kind is Dynamic, its defining instruction id is below the start of the current
  scope, and it has no owning scope or its owning scope is not on the scope stack.
\<close>

definition qualifies :: "Context \<Rightarrow> ReactiveScopeDependency \<Rightarrow> bool" where
  "qualifies c cand =
     (case currentScope c of
        None \<Rightarrow> False
      | Some cs \<Rightarrow>
          (case ctx_declarations c (rootId cand) of
             None \<Rightarrow> False
           | Some d \<Rightarrow>
               kind d = Dynamic \<and> decl_id d < range_start (store c cs) \<and>
               (case decl_scope d of None \<Rightarrow> True | Some s \<Rightarrow> s \<notin> set (scopes c))))"

text \<open>A visit that uses its argument as it is, with no alias resolution.\<close>

definition visitAsIs :: "Context \<Rightarrow> ReactiveScopeDependency \<Rightarrow> Context" where
  "visitAsIs c d = (visitDependency (c\<lparr>properties := Map.empty\<rparr>) d)\<lparr>properties := properties c\<rparr>"

text \<open>
  The reassignment test: the output is a reassignment, the current scope is non-null, the
  identifier has an owning scope, a declaration record exists, and the scope it records
  differs from the identifier's owning scope.
\<close>

definition reassigns :: "Context \<Rightarrow> LValue \<Rightarrow> bool" where
  "reassigns c lvalue =
     (lvalue_kind lvalue = InstrReassign \<and> currentScope c \<noteq> None \<and>
      identifier_scope (place_identifier (lvalue_place lvalue)) \<noteq> None \<and>
      (case ctx_declarations c (identifier_id (place_identifier (lvalue_place lvalue))) of
         None \<Rightarrow> False
       | Some d \<Rightarrow> decl_scope d \<noteq> identifier_scope (place_identifier (lvalue_place lvalue))))"

section \<open>Notions used to state the invariants of the walk\<close>

text \<open>
  The identifiers that the walker declares while it visits a value, a block, an item, a
  terminal or the cases of a switch: the outputs of the instructions it visits as
  instructions.
\<close>

definition outputsInstruction :: "ReactiveInstruction \<Rightarrow> Identifier list" where
  "outputsInstruction instr =
     (case instr_lvalue instr of None \<Rightarrow> [] | Some lv \<Rightarrow> [place_identifier (lvalue_place lv)])"

fun outputsValue :: "ReactiveValue \<Rightarrow> Identifier list" where
  "outputsValue (LogicalExpression left right) = outputsValue left @ outputsValue right"
| "outputsValue (ConditionalExpression test consequent alternate) =
     outputsValue test @ outputsValue consequent @ outputsValue alternate"
| "outputsValue (SequenceExpression instructions v) = concat (map outputsInstruction instructions)"
| "outputsValue (PropertyLoad object property) = []"
| "outputsValue (OtherValue operands) = []"

fun outputsBlock :: "ReactiveBlock \<Rightarrow> Identifier list"
and outputsItem :: "ReactiveStatement \<Rightarrow> Identifier list"
and outputsTerminal :: "ReactiveTerminal \<Rightarrow> Identifier list"
and outputsCases :: "SwitchCase list \<Rightarrow> Identifier list" where
  "outputsBlock [] = []"
| "outputsBlock (item # block) = outputsItem item @ outputsBlock block"
| "outputsItem (ScopeItem scope instructions) = outputsBlock instructions"
| "outputsItem (InstructionItem instruction) = outputsInstruction instruction"
| "outputsItem (TerminalItem terminal) = outputsTerminal terminal"
| "outputsTerminal Break = []"
| "outputsTerminal Continue = []"
| "outputsTerminal (Return v) = []"
| "outputsTerminal (Throw p) = []"
| "outputsTerminal (For init test update loop) =
     outputsValue init @ outputsValue test @ outputsValue update @ outputsBlock loop"
| "outputsTerminal (While test loop) = outputsValue test @ outputsBlock loop"
| "outputsTerminal (If test consequent alternate) =
     outputsBlock consequent @ (case alternate of None \<Rightarrow> [] | Some alt \<Rightarrow> outputsBlock alt)"
| "outputsTerminal (Switch test cases) = outputsCases cases"
| "outputsCases [] = []"
| "outputsCases (SwitchCase t b # cases) =
     (case b of None \<Rightarrow> [] | Some blk \<Rightarrow> outputsBlock blk) @ outputsCases cases"

text \<open>
  The invariant of the walk: every Dynamic declaration record, every entry of the working
  set and every dependency that the pass has stored in a scope has its root id in \<open>ids\<close>.
\<close>

definition rootsWithin ::
  "IdentifierId set \<Rightarrow> Identifier set \<Rightarrow> (ScopeId \<Rightarrow> ReactiveScope) \<Rightarrow> Context \<Rightarrow> bool" where
  "rootsWithin ids reactive st0 c =
     (reactiveIdentifiers c = reactive \<and>
      (\<forall>i d. ctx_declarations c i = Some d \<longrightarrow> kind d = Dynamic \<longrightarrow> i \<in> ids) \<and>
      (\<forall>e\<in>set (ctx_dependencies c). rootId e \<in> ids) \<and>
      (\<forall>s. \<forall>e\<in>set (dependencies (store c s)).
         e \<in> set (dependencies (st0 s)) \<or> rootId e \<in> ids))"

text \<open>
  The second context has the scope stack of the first, and the scopes that are open have
  the declarations they had in the first.
\<close>

definition keepsOpen :: "Context \<Rightarrow> Context \<Rightarrow> bool" where
  "keepsOpen c c' =
     (scopes c' = scopes c \<and>
      (\<forall>S\<in>set (scopes c). declarations (store c' S) = declarations (store c S)))"

text \<open>Every reactive identifier of the list has its id in \<open>ids\<close>.\<close>

definition coversOutputs :: "IdentifierId set \<Rightarrow> Identifier set \<Rightarrow> Identifier list \<Rightarrow> bool" where
  "coversOutputs ids reactive outs = (\<forall>x\<in>set outs. x \<in> reactive \<longrightarrow> identifier_id x \<in> ids)"

text \<open>
  The ids of the parameters of a function, and the ids of the instruction outputs of its
  body that the reactivity analysis marks reactive.
\<close>

definition parameterIds :: "ReactiveFunction \<Rightarrow> IdentifierId set" where
  "parameterIds fn = (\<lambda>p. identifier_id (place_identifier p)) ` set (params fn)"

definition reactiveOutputIds ::
  "(ReactiveFunction \<Rightarrow> Identifier set) \<Rightarrow> ReactiveFunction \<Rightarrow> IdentifierId set" where
  "reactiveOutputIds inferReactiveIdentifiers fn =
     identifier_id ` (set (outputsBlock (body fn)) \<inter> inferReactiveIdentifiers fn)"

section \<open>Sample data\<close>

text \<open>A binding \<open>a\<close> declared Dynamic at instruction 0, and a context with one open scope.\<close>

definition sampleA :: Identifier where
  "sampleA = \<lparr>identifier_id = 1, name = Some ''a'', mutableRange_start = 0, identifier_scope = None\<rparr>"

definition sampleScope :: ReactiveScope where
  "sampleScope = \<lparr>range_start = 5, range_end = 9, dependencies = [], declarations = [],
     reassignments = []\<rparr>"

definition sampleDep :: "nat \<Rightarrow> string list option \<Rightarrow> ReactiveScopeDependency" where
  "sampleDep r p = \<lparr>dep_ref = r, place = \<lparr>place_identifier = sampleA\<rparr>, path = p\<rparr>"

definition sampleContext :: Context where
  "sampleContext =
     \<lparr>ctx_declarations = [1 \<mapsto> \<lparr>kind = Dynamic, decl_id = 0, decl_scope = None\<rparr>],
      ctx_dependencies = [], reactiveIdentifiers = {}, properties = Map.empty, scopes = [7],
      store = (\<lambda>_. sampleScope), next_ref = 3\<rparr>"

lemmas sample_defs = sampleA_def sampleScope_def sampleDep_def sampleContext_def

text \<open>
  An anonymous temporary \<open>t\<close> and a named binding \<open>x\<close> owned by scope 3; a context in which
  \<open>a\<close> was declared inside scope 3, which is closed; a context in which \<open>t\<close> and \<open>a\<close> both
  have a recorded alias; a context in which \<open>x\<close> is declared with no owning scope.
\<close>

definition sampleT :: Identifier where
  "sampleT = \<lparr>identifier_id = 2, name = None, mutableRange_start = 6, identifier_scope = None\<rparr>"

definition sampleX :: Identifier where
  "sampleX = \<lparr>identifier_id = 4, name = Some ''x'', mutableRange_start = 1, identifier_scope = Some 3\<rparr>"

definition sampleEscaped :: Context where
  "sampleEscaped =
     sampleContext\<lparr>ctx_declarations := [1 \<mapsto> \<lparr>kind = Const, decl_id = 6, decl_scope = Some 3\<rparr>]\<rparr>"

definition sampleAliased :: Context where
  "sampleAliased =
     sampleContext\<lparr>properties :=
       [sampleT \<mapsto> sampleDep 1 (Some [''b'']),
        sampleA \<mapsto> \<lparr>dep_ref = 9, place = \<lparr>place_identifier = sampleT\<rparr>, path = Some [''z'']\<rparr>]\<rparr>"

definition sampleReassigning :: Context where
  "sampleReassigning =
     sampleContext\<lparr>ctx_declarations := [4 \<mapsto> \<lparr>kind = Dynamic, decl_id = 1, decl_scope = None\<rparr>]\<rparr>"

lemmas sample_defs2 = sampleT_def sampleX_def sampleEscaped_def sampleAliased_def
  sampleReassigning_def

text \<open>
  A sample operand enumerator, two reactivity analyses (nothing is reactive; one identifier
  is), a store whose scopes start at instruction 0, and sample programs: the chain
  \<open>t1 = obj.x; t2 = t1.y; use(t2)\<close> in scope 7, once after \<open>obj = props.a\<close> was loaded before
  the scope and once after \<open>obj\<close> was computed inside an enclosing scope 3, and a function
  that only reads its parameter in scope 7.
\<close>

definition sampleOperands :: "ReactiveValue \<Rightarrow> Place list" where
  "sampleOperands v = (case v of OtherValue ps \<Rightarrow> ps | PropertyLoad p _ \<Rightarrow> [p] | _ \<Rightarrow> [])"

definition sampleProps :: Identifier where
  "sampleProps = \<lparr>identifier_id = 10, name = Some ''props'', mutableRange_start = 0,
     identifier_scope = None\<rparr>"

definition sampleObj :: Identifier where
  "sampleObj = \<lparr>identifier_id = 11, name = Some ''obj'', mutableRange_start = 1,
     identifier_scope = None\<rparr>"

definition sampleT1 :: Identifier where
  "sampleT1 = \<lparr>identifier_id = 12, name = None, mutableRange_start = 5, identifier_scope = Some 7\<rparr>"

definition sampleT2 :: Identifier where
  "sampleT2 = \<lparr>identifier_id = 13, name = None, mutableRange_start = 6, identifier_scope = Some 7\<rparr>"

definition sampleLet :: "Identifier \<Rightarrow> ReactiveValue \<Rightarrow> ReactiveStatement" where
  "sampleLet i v =
     InstructionItem (ReactiveInstruction
       (Some \<lparr>lvalue_place = \<lparr>place_identifier = i\<rparr>, lvalue_kind = InstrConst\<rparr>) v)"

definition sampleChain :: "Identifier \<Rightarrow> ReactiveStatement" where
  "sampleChain obj =
     ScopeItem 7
       [sampleLet sampleT1 (PropertyLoad \<lparr>place_identifier = obj\<rparr> ''x''),
        sampleLet sampleT2 (PropertyLoad \<lparr>place_identifier = sampleT1\<rparr> ''y''),
        InstructionItem (ReactiveInstruction None (OtherValue [\<lparr>place_identifier = sampleT2\<rparr>]))]"

definition noneReactive :: "ReactiveFunction \<Rightarrow> Identifier set" where
  "noneReactive fn = {}"

definition onlyReactive :: "Identifier \<Rightarrow> ReactiveFunction \<Rightarrow> Identifier set" where
  "onlyReactive x fn = {x}"

definition sampleStoreZero :: "ScopeId \<Rightarrow> ReactiveScope" where
  "sampleStoreZero = (\<lambda>_. sampleScope\<lparr>range_start := 0\<rparr>)"

definition sampleStore :: "ScopeId \<Rightarrow> ReactiveScope" where
  "sampleStore = (\<lambda>_. sampleScope)(3 := sampleScope\<lparr>range_start := 1\<rparr>)"

definition sampleUseFn :: ReactiveFunction where
  "sampleUseFn = \<lparr>fn_id = None, params = [\<lparr>place_identifier = sampleProps\<rparr>],
     body = [ScopeItem 7
               [InstructionItem (ReactiveInstruction None
                  (OtherValue [\<lparr>place_identifier = sampleProps\<rparr>]))]]\<rparr>"

definition sampleAliasFn :: ReactiveFunction where
  "sampleAliasFn = \<lparr>fn_id = None, params = [\<lparr>place_identifier = sampleProps\<rparr>],
     body = [sampleLet sampleObj (PropertyLoad \<lparr>place_identifier = sampleProps\<rparr> ''a''),
             sampleChain sampleObj]\<rparr>"

definition sampleNestedBlock :: ReactiveBlock where
  "sampleNestedBlock =
     [sampleLet sampleObj (OtherValue [\<lparr>place_identifier = sampleProps\<rparr>]),
      sampleChain sampleObj]"

definition sampleNestedFn :: ReactiveFunction where
  "sampleNestedFn = \<lparr>fn_id = None, params = [\<lparr>place_identifier = sampleProps\<rparr>],
     body = [ScopeItem 3 sampleNestedBlock]\<rparr>"

text \<open>
  A function \<open>f\<close> that reassigns its own name and then reads it in scope 7.
\<close>

definition sampleF :: Identifier where
  "sampleF = \<lparr>identifier_id = 20, name = Some ''f'', mutableRange_start = 1, identifier_scope = None\<rparr>"

definition sampleSelfFn :: ReactiveFunction where
  "sampleSelfFn = \<lparr>fn_id = Some sampleF, params = [\<lparr>place_identifier = sampleProps\<rparr>],
     body = [InstructionItem (ReactiveInstruction
               (Some \<lparr>lvalue_place = \<lparr>place_identifier = sampleF\<rparr>, lvalue_kind = InstrReassign\<rparr>)
               (OtherValue [\<lparr>place_identifier = sampleProps\<rparr>])),
             ScopeItem 7
               [InstructionItem (ReactiveInstruction None
                  (OtherValue [\<lparr>place_identifier = sampleF\<rparr>]))]]\<rparr>"

text \<open>
  A function that computes \<open>v\<close>, then in scope 7 reads \<open>v\<close> and reassigns it.
\<close>

definition sampleV :: Identifier where
  "sampleV = \<lparr>identifier_id = 30, name = Some ''v'', mutableRange_start = 1, identifier_scope = None\<rparr>"

definition sampleRedeclareFn :: ReactiveFunction where
  "sampleRedeclareFn = \<lparr>fn_id = None, params = [\<lparr>place_identifier = sampleProps\<rparr>],
     body = [sampleLet sampleV (OtherValue [\<lparr>place_identifier = sampleProps\<rparr>]),
             ScopeItem 7
               [InstructionItem (ReactiveInstruction None
                  (OtherValue [\<lparr>place_identifier = sampleV\<rparr>])),
                InstructionItem (ReactiveInstruction
                  (Some \<lparr>lvalue_place = \<lparr>place_identifier = sampleV\<rparr>, lvalue_kind = InstrReassign\<rparr>)
                  (OtherValue [\<lparr>place_identifier = sampleProps\<rparr>]))]]\<rparr>"

lemmas sample_defs3 = sampleV_def sampleRedeclareFn_def sampleNestedBlock_def noneReactive_def onlyReactive_def
  sampleStoreZero_def sampleF_def sampleSelfFn_def sampleOperands_def sampleProps_def
  sampleObj_def sampleT1_def sampleT2_def sampleLet_def sampleChain_def sampleStore_def
  sampleUseFn_def sampleAliasFn_def sampleNestedFn_def

section \<open>Properties of the merge loop\<close>

lemma commonPathIndex_prefix_aux:
  "i \<le> length depPath \<Longrightarrow> i \<le> length operandPath \<Longrightarrow> take i operandPath = take i depPath \<Longrightarrow>
   (commonPathIndex operandPath depPath i = length depPath) = prefix depPath operandPath"
proof (induction operandPath depPath i rule: commonPathIndex.induct)
  case (1 operandPath depPath i)
  show ?case
  proof (cases "i < length operandPath \<and> i < length depPath \<and> operandPath ! i = depPath ! i")
    case True
    then have "take (Suc i) operandPath = take (Suc i) depPath"
      using "1.prems" by (simp add: take_Suc_conv_app_nth)
    with True "1.IH" show ?thesis
      by (subst commonPathIndex.simps) simp
  next
    case False
    have eq: "commonPathIndex operandPath depPath i = i"
      using False by (subst commonPathIndex.simps) auto
    show ?thesis
    proof (cases "i = length depPath")
      case True
      then have "depPath = take (length depPath) operandPath"
        using "1.prems" by simp
      then have "prefix depPath operandPath"
        by (metis take_is_prefix)
      with eq True show ?thesis by simp
    next
      case neq: False
      then have lt: "i < length depPath" using "1.prems" by simp
      have "\<not> prefix depPath operandPath"
      proof
        assume p: "prefix depPath operandPath"
        then have "length depPath \<le> length operandPath" by (rule prefix_length_le)
        moreover have "operandPath ! i = depPath ! i"
          using p lt by (auto simp: prefix_def nth_append)
        ultimately show False using False lt by simp
      qed
      with eq neq show ?thesis by simp
    qed
  qed
qed

lemma commonPathIndex_prefix:
  "(commonPathIndex operandPath depPath 0 = length depPath) = prefix depPath operandPath"
  by (rule commonPathIndex_prefix_aux) simp_all

lemma mergeDependency_path:
  "path cand = Some p \<Longrightarrow>
   mergeDependency xs cand deps =
     (if \<exists>e\<in>set xs. rootId e = rootId cand \<and> (case path e of None \<Rightarrow> True | Some q \<Rightarrow> prefix q p)
      then deps else set_add cand deps)"
  by (induction xs) (auto simp: rootId_def commonPathIndex_prefix split: option.splits)


lemma mergeDependency_subset: "set (mergeDependency xs cand deps) \<subseteq> insert cand (set deps)"
  by (induction xs) (auto simp: set_add_def set_delete_def split: option.splits if_splits)

lemma DeclKind_neq_Const: "(k \<noteq> Const) = (k = Dynamic)"
  by (cases k) simp_all

lemma visitDependency_eq:
  "visitDependency c d =
     c\<lparr>store := promoteEscape c (resolveAlias c d),
       ctx_dependencies :=
         (if qualifies c (resolveAlias c d)
          then mergeDependency (ctx_dependencies c) (resolveAlias c d) (ctx_dependencies c)
          else ctx_dependencies c)\<rparr>"
proof -
  have md: "(if path d \<noteq> None then d
             else case properties c (place_identifier (place d)) of
                    Some propDep \<Rightarrow>
                      if name (place_identifier (place d)) = None then propDep else d
                  | None \<Rightarrow> d) = resolveAlias c d"
    by (simp add: resolveAlias_def split: option.splits)
  show ?thesis
    unfolding visitDependency_def md Let_def
    by (rule Context.equality)
       (auto simp: promoteEscape_def qualifies_def rootId_def isScopeActive_def currentScope_def
          DeclKind_neq_Const split: option.splits)
qed

lemma promoteEscape_range_start [simp]:
  "range_start (promoteEscape c cand s) = range_start (store c s)"
  by (simp add: promoteEscape_def split: option.splits)

lemma promoteEscape_dependencies [simp]:
  "dependencies (promoteEscape c cand s) = dependencies (store c s)"
  by (simp add: promoteEscape_def split: option.splits)

lemma promoteEscape_reassignments [simp]:
  "reassignments (promoteEscape c cand s) = reassignments (store c s)"
  by (simp add: promoteEscape_def split: option.splits)

lemma visitDependency_scopes [simp]: "scopes (visitDependency c d) = scopes c"
  by (simp add: visitDependency_eq)

lemma visitDependency_ctx_declarations [simp]:
  "ctx_declarations (visitDependency c d) = ctx_declarations c"
  by (simp add: visitDependency_eq)

lemma visitDependency_properties [simp]: "properties (visitDependency c d) = properties c"
  by (simp add: visitDependency_eq)

lemma visitDependency_reactiveIdentifiers [simp]:
  "reactiveIdentifiers (visitDependency c d) = reactiveIdentifiers c"
  by (simp add: visitDependency_eq)

lemma visitDependency_next_ref [simp]: "next_ref (visitDependency c d) = next_ref c"
  by (simp add: visitDependency_eq)

lemma visitDependency_range_start [simp]:
  "range_start (store (visitDependency c d) s) = range_start (store c s)"
  by (simp add: visitDependency_eq)

lemma visitDependency_dependencies [simp]:
  "dependencies (store (visitDependency c d) s) = dependencies (store c s)"
  by (simp add: visitDependency_eq)

lemma visitDependency_reassignments [simp]:
  "reassignments (store (visitDependency c d) s) = reassignments (store c s)"
  by (simp add: visitDependency_eq)

lemma visitDependency_currentScope [simp]: "currentScope (visitDependency c d) = currentScope c"
  by (simp add: currentScope_def)

lemma qualifies_visitDependency [simp]: "qualifies (visitDependency c d) e = qualifies c e"
  by (simp add: qualifies_def cong: option.case_cong)

lemma resolveAlias_visitDependency [simp]: "resolveAlias (visitDependency c d) e = resolveAlias c e"
  by (simp add: resolveAlias_def)

lemma resolveAlias_path [simp]: "path d = Some p \<Longrightarrow> resolveAlias c d = d"
  by (simp add: resolveAlias_def)







lemma resolveAlias_no_properties [simp]: "resolveAlias (c\<lparr>properties := Map.empty\<rparr>) d = d"
  by (simp add: resolveAlias_def)

lemma promoteEscape_properties [simp]: "promoteEscape (c\<lparr>properties := p\<rparr>) d = promoteEscape c d"
  by (simp add: promoteEscape_def split: option.splits)

lemma qualifies_properties [simp]: "qualifies (c\<lparr>properties := p\<rparr>) d = qualifies c d"
  by (simp add: qualifies_def currentScope_def cong: option.case_cong)

lemma visitAsIs_eq:
  "visitAsIs c d =
     c\<lparr>store := promoteEscape c d,
       ctx_dependencies :=
         (if qualifies c d then mergeDependency (ctx_dependencies c) d (ctx_dependencies c)
          else ctx_dependencies c)\<rparr>"
  by (rule Context.equality) (simp_all add: visitAsIs_def visitDependency_eq)

lemma visitDependency_visitAsIs: "visitDependency c d = visitAsIs c (resolveAlias c d)"
  by (simp only: visitAsIs_eq visitDependency_eq)

lemma visitReassignment_eq:
  "visitReassignment c lvalue =
     (if reassigns c lvalue
      then c\<lparr>store := (store c)(the (currentScope c) := (store c (the (currentScope c)))
             \<lparr>reassignments := set_add (place_identifier (lvalue_place lvalue))
                (reassignments (store c (the (currentScope c))))\<rparr>)\<rparr>
      else c)"
  by (auto simp: visitReassignment_def reassigns_def Let_def split: option.splits)

lemma currentScope_store [simp]: "currentScope (c\<lparr>store := st\<rparr>) = currentScope c"
  by (simp add: currentScope_def)

lemma set_add_idem: "set_add x (set_add x xs) = set_add x xs"
  by (simp add: set_add_def)

lemma count_list_set_add: "distinct xs \<Longrightarrow> count_list (set_add x xs) x = 1"
  by (induction xs) (auto simp: set_add_def split: if_splits)

lemma reassigns_update_store [simp]: "reassigns (c\<lparr>store := st\<rparr>) lvalue = reassigns c lvalue"
  by (simp add: reassigns_def currentScope_def)

section \<open>What the operations on the context leave unchanged\<close>

lemma visitReassignment_scopes [simp]: "scopes (visitReassignment c lv) = scopes c"
  by (simp add: visitReassignment_eq)

lemma visitReassignment_ctx_declarations [simp]:
  "ctx_declarations (visitReassignment c lv) = ctx_declarations c"
  by (simp add: visitReassignment_eq)

lemma visitReassignment_ctx_dependencies [simp]:
  "ctx_dependencies (visitReassignment c lv) = ctx_dependencies c"
  by (simp add: visitReassignment_eq)

lemma visitReassignment_properties [simp]: "properties (visitReassignment c lv) = properties c"
  by (simp add: visitReassignment_eq)

lemma visitReassignment_reactiveIdentifiers [simp]:
  "reactiveIdentifiers (visitReassignment c lv) = reactiveIdentifiers c"
  by (simp add: visitReassignment_eq)

lemma visitReassignment_next_ref [simp]: "next_ref (visitReassignment c lv) = next_ref c"
  by (simp add: visitReassignment_eq)

lemma visitReassignment_range_start [simp]:
  "range_start (store (visitReassignment c lv) s) = range_start (store c s)"
  by (simp add: visitReassignment_eq)

lemma visitReassignment_dependencies [simp]:
  "dependencies (store (visitReassignment c lv) s) = dependencies (store c s)"
  by (simp add: visitReassignment_eq)

lemma visitReassignment_declarations [simp]:
  "declarations (store (visitReassignment c lv) s) = declarations (store c s)"
  by (simp add: visitReassignment_eq)

lemma visitReassignment_currentScope [simp]:
  "currentScope (visitReassignment c lv) = currentScope c"
  by (simp add: currentScope_def)

lemma visitInstruction_load:
  "visitInstruction ero c (ReactiveInstruction (Some lv) (PropertyLoad object property)) =
     declare_decl (visitReassignment (declareProperty c (lvalue_place lv) object property) lv)
       (place_identifier (lvalue_place lv))
       \<lparr>kind = (if isReactive c (place_identifier (lvalue_place lv)) then Dynamic else Const),
        decl_id = mutableRange_start (place_identifier (lvalue_place lv)),
        decl_scope = currentScope c\<rparr>"
  by (simp add: visitInstruction_def visitInstructionValue_def Let_def isReactive_def
      declareProperty_def currentScope_def)

lemma visitInstructionValue_other:
  "\<forall>object property. v \<noteq> PropertyLoad object property \<Longrightarrow>
   visitInstructionValue ero c v lv = foldl visitOperand c (ero v)"
  by (cases v) (simp_all add: visitInstructionValue_def)

lemma visitInstruction_ctx_dependencies:
  "ctx_dependencies (visitInstruction ero c i) =
     ctx_dependencies (visitInstructionValue ero c (instr_value i) (instr_lvalue i))"
  by (simp add: visitInstruction_def Let_def declare_decl_def split: option.splits)

lemma visitInstruction_dependencies:
  "dependencies (store (visitInstruction ero c i) s) =
     dependencies (store (visitInstructionValue ero c (instr_value i) (instr_lvalue i)) s)"
  by (simp add: visitInstruction_def Let_def declare_decl_def split: option.splits)

lemma visitOperand_eq:
  "visitOperand c p =
     visitDependency (c\<lparr>next_ref := Suc (next_ref c)\<rparr>) \<lparr>dep_ref = next_ref c, place = p, path = None\<rparr>"
  by (simp add: visitOperand_def)

lemma qualifies_next_ref [simp]: "qualifies (c\<lparr>next_ref := n\<rparr>) d = qualifies c d"
  by (simp add: qualifies_def currentScope_def cong: option.case_cong)

lemma resolveAlias_next_ref [simp]: "resolveAlias (c\<lparr>next_ref := n\<rparr>) d = resolveAlias c d"
  by (simp add: resolveAlias_def)

lemma visitOperand_ctx_dependencies:
  "ctx_dependencies (visitOperand c p) =
     (let md = resolveAlias c \<lparr>dep_ref = next_ref c, place = p, path = None\<rparr>
      in if qualifies c md then mergeDependency (ctx_dependencies c) md (ctx_dependencies c)
         else ctx_dependencies c)"
  by (simp add: visitOperand_def visitDependency_eq Let_def)

section \<open>The invariant of the walk\<close>

lemma coversOutputs_Nil [simp]: "coversOutputs ids R []"
  by (simp add: coversOutputs_def)

lemma coversOutputs_append [simp]:
  "coversOutputs ids R (xs @ ys) = (coversOutputs ids R xs \<and> coversOutputs ids R ys)"
  by (auto simp: coversOutputs_def)

lemma qualifies_Dynamic:
  "qualifies c d \<Longrightarrow> \<exists>dd. ctx_declarations c (rootId d) = Some dd \<and> kind dd = Dynamic"
  by (auto simp: qualifies_def split: option.splits)

lemma rootsWithin_next_ref [simp]:
  "rootsWithin ids R st0 (c\<lparr>next_ref := n\<rparr>) = rootsWithin ids R st0 c"
  by (simp add: rootsWithin_def)

lemma rootsWithin_visitDependency:
  assumes inv: "rootsWithin ids R st0 c"
  shows "rootsWithin ids R st0 (visitDependency c d)"
proof -
  have deps: "\<forall>e\<in>set (ctx_dependencies (visitDependency c d)). rootId e \<in> ids"
  proof (cases "qualifies c (resolveAlias c d)")
    case True
    then obtain dd where "ctx_declarations c (rootId (resolveAlias c d)) = Some dd" "kind dd = Dynamic"
      using qualifies_Dynamic by blast
    then have "rootId (resolveAlias c d) \<in> ids"
      using inv by (auto simp: rootsWithin_def)
    then show ?thesis
      using True inv
        mergeDependency_subset [of "ctx_dependencies c" "resolveAlias c d" "ctx_dependencies c"]
      by (auto simp: visitDependency_eq rootsWithin_def)
  next
    case False
    then show ?thesis
      using inv by (simp add: visitDependency_eq rootsWithin_def)
  qed
  show ?thesis
    using inv deps by (simp add: rootsWithin_def)
qed

lemma rootsWithin_visitOperand:
  "rootsWithin ids R st0 c \<Longrightarrow> rootsWithin ids R st0 (visitOperand c p)"
  by (simp add: visitOperand_def rootsWithin_visitDependency)

lemma rootsWithin_visitOperands:
  "rootsWithin ids R st0 c \<Longrightarrow> rootsWithin ids R st0 (foldl visitOperand c ps)"
  by (induction ps arbitrary: c) (simp_all add: rootsWithin_visitOperand)

lemma rootsWithin_visitDependencies:
  "rootsWithin ids R st0 c \<Longrightarrow> rootsWithin ids R st0 (foldl visitDependency c ds)"
  by (induction ds arbitrary: c) (simp_all add: rootsWithin_visitDependency)

lemma rootsWithin_visitProperty:
  "rootsWithin ids R st0 c \<Longrightarrow> rootsWithin ids R st0 (visitProperty c object property)"
  by (simp add: visitProperty_def rootsWithin_visitDependency)

lemma rootsWithin_declareProperty:
  "rootsWithin ids R st0 c \<Longrightarrow> rootsWithin ids R st0 (declareProperty c lv object property)"
  by (simp add: declareProperty_def rootsWithin_def)

lemma rootsWithin_visitReassignment:
  "rootsWithin ids R st0 c \<Longrightarrow> rootsWithin ids R st0 (visitReassignment c lv)"
  by (simp add: rootsWithin_def)

lemma rootsWithin_declare_decl:
  "rootsWithin ids R st0 c \<Longrightarrow> (kind d = Dynamic \<longrightarrow> identifier_id x \<in> ids) \<Longrightarrow>
   rootsWithin ids R st0 (declare_decl c x d)"
  by (simp add: declare_decl_def rootsWithin_def)

lemma rootsWithin_visitInstructionValue:
  "rootsWithin ids R st0 c \<Longrightarrow> rootsWithin ids R st0 (visitInstructionValue ero c v lv)"
  by (cases v; cases lv)
     (simp_all add: visitInstructionValue_def rootsWithin_declareProperty rootsWithin_visitProperty
        rootsWithin_visitOperands)

lemma rootsWithin_visitInstruction:
  assumes inv: "rootsWithin ids R st0 c"
    and cov: "coversOutputs ids R (outputsInstruction i)"
  shows "rootsWithin ids R st0 (visitInstruction ero c i)"
proof (cases "instr_lvalue i")
  case None
  then show ?thesis
    using inv by (simp add: visitInstruction_def rootsWithin_visitInstructionValue)
next
  case (Some lv)
  let ?c2 = "visitReassignment (visitInstructionValue ero c (instr_value i) (Some lv)) lv"
  have inv2: "rootsWithin ids R st0 ?c2"
    using inv by (simp add: rootsWithin_visitReassignment rootsWithin_visitInstructionValue)
  then have "reactiveIdentifiers ?c2 = R"
    by (simp add: rootsWithin_def)
  then have "isReactive ?c2 (place_identifier (lvalue_place lv)) \<longrightarrow>
             identifier_id (place_identifier (lvalue_place lv)) \<in> ids"
    using cov Some by (simp add: isReactive_def coversOutputs_def outputsInstruction_def)
  then show ?thesis
    using Some inv2 by (simp add: visitInstruction_def Let_def rootsWithin_declare_decl)
qed

lemma rootsWithin_visitInstructions:
  "rootsWithin ids R st0 c \<Longrightarrow> coversOutputs ids R (concat (map outputsInstruction instrs)) \<Longrightarrow>
   rootsWithin ids R st0 (foldl (visitInstruction ero) c instrs)"
  by (induction instrs arbitrary: c) (simp_all add: rootsWithin_visitInstruction)

lemma rootsWithin_visitReactiveValue:
  "rootsWithin ids R st0 c \<Longrightarrow> coversOutputs ids R (outputsValue v) \<Longrightarrow>
   rootsWithin ids R st0 (visitReactiveValue eio ero c v)"
proof (induction eio ero c v rule: visitReactiveValue.induct)
  case (3 eio ero c instructions v)
  then show ?case
    by (simp add: rootsWithin_visitInstructions rootsWithin_visitInstructionValue)
qed (simp_all add: rootsWithin_visitOperands)

lemma rootsWithin_scope_exit:
  assumes outer: "rootsWithin ids R st0 c"
    and inner: "rootsWithin ids R st0 c2"
  shows "rootsWithin ids R st0
           (c2\<lparr>scopes := ss, ctx_dependencies := ctx_dependencies c,
               store := (store c2)(scope := (store c2 scope)\<lparr>dependencies := ctx_dependencies c2\<rparr>)\<rparr>)"
  using outer inner by (simp add: rootsWithin_def)

lemma rootsWithin_visit:
  "rootsWithin ids R st0 c \<Longrightarrow> coversOutputs ids R (outputsBlock blk) \<Longrightarrow>
     rootsWithin ids R st0 (visit eio ero c blk)"
  and "rootsWithin ids R st0 c \<Longrightarrow> coversOutputs ids R (outputsItem item) \<Longrightarrow>
     rootsWithin ids R st0 (visitItem eio ero c item)"
  and "rootsWithin ids R st0 c \<Longrightarrow> coversOutputs ids R (outputsTerminal t) \<Longrightarrow>
     rootsWithin ids R st0 (visitTerminal eio ero c t)"
  and "rootsWithin ids R st0 c \<Longrightarrow> coversOutputs ids R (outputsCases cases) \<Longrightarrow>
     rootsWithin ids R st0 (visitCases eio ero c cases)"
proof (induction eio ero c blk and eio ero c item and eio ero c t and eio ero c cases
    rule: visit_visitItem_visitTerminal_visitCases.induct)
  case (3 eio ero c scope instructions)
  let ?c1 = "c\<lparr>ctx_dependencies := [], scopes := scopes c @ [scope]\<rparr>"
  let ?c2 = "visit eio ero ?c1 instructions"
  have "rootsWithin ids R st0 ?c1"
    using "3.prems" by (simp add: rootsWithin_def)
  then have inner: "rootsWithin ids R st0 ?c2"
    using "3.IH" "3.prems" by simp
  have "rootsWithin ids R st0
          (foldl visitDependency
             (?c2\<lparr>scopes := butlast (scopes ?c2), ctx_dependencies := ctx_dependencies c,
                  store := (store ?c2)(scope := (store ?c2 scope)
                    \<lparr>dependencies := ctx_dependencies ?c2\<rparr>)\<rparr>)
             (ctx_dependencies ?c2))"
    using "3.prems"(1) inner
    by (intro rootsWithin_visitDependencies rootsWithin_scope_exit)
  then show ?case
    by (simp add: enter_def Let_def)
next
  case (4 eio ero c instruction)
  then show ?case by (simp add: rootsWithin_visitInstruction)
next
  case (8 eio ero c v)
  then show ?case by (cases v) (simp_all add: rootsWithin_visitOperand)
next
  case (9 eio ero c p)
  then show ?case by (simp add: rootsWithin_visitOperand)
next
  case (10 eio ero c init test update loop)
  then show ?case by (simp add: rootsWithin_visitReactiveValue)
next
  case (11 eio ero c test loop)
  then show ?case by (simp add: rootsWithin_visitReactiveValue)
next
  case (12 eio ero c test consequent alternate)
  then show ?case by (cases alternate) (simp_all add: rootsWithin_visitOperand Let_def)
next
  case (13 eio ero c test cases)
  then show ?case by (simp add: rootsWithin_visitOperand)
next
  case (15 eio ero c t b cases)
  then show ?case by (cases b) simp_all
qed simp_all

lemma declare_params_declarations:
  "ctx_declarations (foldl (\<lambda>ctx param. declare_decl ctx (place_identifier param) d) c ps) i =
     (if i \<in> (\<lambda>p. identifier_id (place_identifier p)) ` set ps then Some d
      else ctx_declarations c i)"
  by (induction ps arbitrary: c) (auto simp: declare_decl_def)

lemma declare_params_frame:
  "ctx_dependencies (foldl (\<lambda>ctx param. declare_decl ctx (place_identifier param) d) c ps) =
     ctx_dependencies c \<and>
   reactiveIdentifiers (foldl (\<lambda>ctx param. declare_decl ctx (place_identifier param) d) c ps) =
     reactiveIdentifiers c \<and>
   store (foldl (\<lambda>ctx param. declare_decl ctx (place_identifier param) d) c ps) = store c"
  by (induction ps arbitrary: c) (simp_all add: declare_decl_def)

lemma initialContext_declarations:
  "ctx_declarations (initialContext infer fn st) i =
     (if i \<in> parameterIds fn then Some \<lparr>kind = Dynamic, decl_id = 0, decl_scope = None\<rparr>
      else if map_option identifier_id (fn_id fn) = Some i
           then Some \<lparr>kind = Const, decl_id = 0, decl_scope = None\<rparr>
           else None)"
  by (cases "fn_id fn";
      simp add: initialContext_def Let_def declare_params_declarations parameterIds_def;
      (auto simp: declare_decl_def newContext_def)?)

lemma initialContext_frame:
  "ctx_dependencies (initialContext infer fn st) = [] \<and>
   reactiveIdentifiers (initialContext infer fn st) = infer fn \<and>
   store (initialContext infer fn st) = st"
  by (cases "fn_id fn";
      simp add: initialContext_def Let_def declare_params_frame;
      (simp add: declare_decl_def newContext_def)?)

lemma rootsWithin_initialContext:
  "parameterIds fn \<subseteq> ids \<Longrightarrow> rootsWithin ids (infer fn) st (initialContext infer fn st)"
  by (auto simp: rootsWithin_def initialContext_declarations initialContext_frame split: if_splits)

lemma propagate_roots:
  assumes e: "e \<in> set (dependencies (store (propagateScopeDependencies infer eio ero fn st) s))"
  shows "e \<in> set (dependencies (st s)) \<or> rootId e \<in> parameterIds fn \<union> reactiveOutputIds infer fn"
proof -
  let ?ids = "parameterIds fn \<union> reactiveOutputIds infer fn"
  have "rootsWithin ?ids (infer fn) st (initialContext infer fn st)"
    by (rule rootsWithin_initialContext) simp
  moreover have "coversOutputs ?ids (infer fn) (outputsBlock (body fn))"
    by (auto simp: coversOutputs_def reactiveOutputIds_def)
  ultimately have "rootsWithin ?ids (infer fn) st (propagateScopeDependencies infer eio ero fn st)"
    unfolding propagateScopeDependencies_def by (rule rootsWithin_visit(1))
  then show ?thesis
    using e by (auto simp: rootsWithin_def)
qed

section \<open>Open scopes keep their declarations\<close>

lemma keepsOpen_refl [simp]: "keepsOpen c c"
  by (simp add: keepsOpen_def)


lemma keepsOpen_next_ref: "keepsOpen c (c'\<lparr>next_ref := n\<rparr>) = keepsOpen c c'"
  by (simp add: keepsOpen_def)













section \<open>A chain of property loads inside a scope\<close>

lemma chain_in_scope:
  fixes c :: Context and objP :: Place and x y :: string
  defines "a1 \<equiv> nextDependency c objP x"
  defines "chain \<equiv> \<lparr>dep_ref = Suc (next_ref c), place = place a1,
                      path = Some ((case path a1 of None \<Rightarrow> [] | Some p \<Rightarrow> p) @ [y])\<rparr>"
  assumes t1: "place_identifier (lvalue_place lvA) = place_identifier t1P"
    and t2: "place_identifier (lvalue_place lvB) = place_identifier t2P"
    and anon: "name (place_identifier t2P) = None"
    and id1: "identifier_id (place_identifier t1P) \<noteq> rootId chain"
    and id2: "identifier_id (place_identifier t2P) \<noteq> rootId chain"
    and notload: "\<forall>object property. use \<noteq> PropertyLoad object property"
    and operands: "ero use = [t2P]"
  shows "dependencies (store (visitItem eio ero c (ScopeItem S
           [InstructionItem (ReactiveInstruction (Some lvA) (PropertyLoad objP x)),
            InstructionItem (ReactiveInstruction (Some lvB) (PropertyLoad t1P y)),
            InstructionItem (ReactiveInstruction lvUse use)])) S) =
         (if qualifies (c\<lparr>scopes := scopes c @ [S]\<rparr>) chain then [chain] else [])"
proof -
  define c0 where "c0 = c\<lparr>ctx_dependencies := [], scopes := scopes c @ [S]\<rparr>"
  define c1 where "c1 = visitInstruction ero c0 (ReactiveInstruction (Some lvA) (PropertyLoad objP x))"
  define c2 where "c2 = visitInstruction ero c1 (ReactiveInstruction (Some lvB) (PropertyLoad t1P y))"
  define c3 where "c3 = visitInstruction ero c2 (ReactiveInstruction lvUse use)"
  have a1: "nextDependency c0 objP x = a1"
    by (simp add: a1_def c0_def nextDependency_def split: option.splits)
  have p1: "properties c1 (place_identifier t1P) = Some a1"
    and d1: "ctx_declarations c1 (rootId chain) = ctx_declarations c (rootId chain)"
    and s1: "scopes c1 = scopes c @ [S]"
    and w1: "ctx_dependencies c1 = []"
    and r1: "range_start (store c1 S) = range_start (store c S)"
    and n1: "next_ref c1 = Suc (next_ref c)"
    using t1 id1 a1
    by (simp_all add: c1_def visitInstruction_load declare_decl_def declareProperty_def)
       (simp_all add: c0_def)
  have a2: "nextDependency c1 t1P y = chain"
    using p1 n1 by (simp add: chain_def nextDependency_def)
  have p2: "properties c2 (place_identifier t2P) = Some chain"
    and d2: "ctx_declarations c2 (rootId chain) = ctx_declarations c (rootId chain)"
    and s2: "scopes c2 = scopes c @ [S]"
    and w2: "ctx_dependencies c2 = []"
    and r2: "range_start (store c2 S) = range_start (store c S)"
    using d1 s1 w1 r1 t2 id2 a2
    by (simp_all add: c2_def visitInstruction_load declare_decl_def declareProperty_def)
  have res: "resolveAlias c2 \<lparr>dep_ref = next_ref c2, place = t2P, path = None\<rparr> = chain"
    using p2 anon by (simp add: resolveAlias_def)
  have qual: "qualifies c2 chain = qualifies (c\<lparr>scopes := scopes c @ [S]\<rparr>) chain"
    using d2 s2 r2 by (simp add: qualifies_def currentScope_def cong: option.case_cong)
  have w3: "ctx_dependencies c3 =
              (if qualifies (c\<lparr>scopes := scopes c @ [S]\<rparr>) chain then [chain] else [])"
    using notload operands res qual w2
    by (simp add: c3_def visitInstruction_ctx_dependencies visitInstructionValue_other
        visitOperand_ctx_dependencies set_add_def)
  have body: "visit eio ero c0
      [InstructionItem (ReactiveInstruction (Some lvA) (PropertyLoad objP x)),
       InstructionItem (ReactiveInstruction (Some lvB) (PropertyLoad t1P y)),
       InstructionItem (ReactiveInstruction lvUse use)] = c3"
    by (simp add: c3_def c2_def c1_def)
  show ?thesis
    using w3 body
    by (simp add: enter_def Let_def c0_def [symmetric])
qed

section \<open>Runs of the pass on the sample functions\<close>

lemmas eval_defs = propagateScopeDependencies_def initialContext_def newContext_def declare_decl_def
  enter_def visitInstruction_def visitInstructionValue_def declareProperty_def nextDependency_def
  visitReassignment_def visitOperand_def visitProperty_def visitDependency_def
  isScopeActive_def currentScope_def isReactive_def set_add_def set_delete_def Let_def

lemma sampleUseFn_run:
  "dependencies (store (propagateScopeDependencies noneReactive sampleOperands sampleOperands
      sampleUseFn sampleStore) 7) =
   [\<lparr>dep_ref = 0, place = \<lparr>place_identifier = sampleProps\<rparr>, path = None\<rparr>]"
  by (simp add: eval_defs sample_defs sample_defs3)

lemma sampleUseFn_run_from_zero:
  "dependencies (store (propagateScopeDependencies noneReactive sampleOperands sampleOperands
      sampleUseFn sampleStoreZero) 7) = []"
  by (simp add: eval_defs sample_defs sample_defs3)

lemma sampleSelfFn_run:
  "dependencies (store (propagateScopeDependencies (onlyReactive sampleF) sampleOperands sampleOperands
      sampleSelfFn sampleStore) 7) =
   [\<lparr>dep_ref = 1, place = \<lparr>place_identifier = sampleF\<rparr>, path = None\<rparr>]"
  by (simp add: eval_defs sample_defs sample_defs3)

lemma visitDependencies_dependencies [simp]:
  "dependencies (store (foldl visitDependency c ds) s) = dependencies (store c s)"
  by (induction ds arbitrary: c) simp_all

lemma scope_item_other:
  "s \<noteq> scope \<Longrightarrow>
   dependencies (store (visitItem eio ero c (ScopeItem scope blk)) s) =
     dependencies (store (visit eio ero (c\<lparr>ctx_dependencies := [], scopes := scopes c @ [scope]\<rparr>) blk) s)"
  by (simp add: enter_def Let_def)

lemma sampleAliasFn_run:
  "dependencies (store (propagateScopeDependencies (onlyReactive sampleObj) sampleOperands sampleOperands
      sampleAliasFn sampleStore) 7) =
   [\<lparr>dep_ref = 2, place = \<lparr>place_identifier = sampleProps\<rparr>, path = Some [''a'', ''x'', ''y'']\<rparr>]"
proof -
  define c1 where "c1 = visitItem sampleOperands sampleOperands
      (initialContext (onlyReactive sampleObj) sampleAliasFn sampleStore)
      (sampleLet sampleObj (PropertyLoad \<lparr>place_identifier = sampleProps\<rparr> ''a''))"
  have run: "propagateScopeDependencies (onlyReactive sampleObj) sampleOperands sampleOperands
      sampleAliasFn sampleStore = visitItem sampleOperands sampleOperands c1 (sampleChain sampleObj)"
    by (simp add: propagateScopeDependencies_def c1_def sampleAliasFn_def del: visitItem.simps)
  have p: "properties c1 sampleObj =
             Some \<lparr>dep_ref = 0, place = \<lparr>place_identifier = sampleProps\<rparr>, path = Some [''a'']\<rparr>"
    and n: "next_ref c1 = 1"
    and d: "ctx_declarations c1 10 = Some \<lparr>kind = Dynamic, decl_id = 0, decl_scope = None\<rparr>"
    and s: "scopes c1 = []"
    and r: "range_start (store c1 7) = 5"
    by (simp_all add: c1_def eval_defs sample_defs sample_defs3)
  show ?thesis
    unfolding run sampleChain_def sampleLet_def
    using chain_in_scope [where c = c1 and objP = "\<lparr>place_identifier = sampleObj\<rparr>"
        and S = 7 and t1P = "\<lparr>place_identifier = sampleT1\<rparr>"
        and t2P = "\<lparr>place_identifier = sampleT2\<rparr>"
        and lvA = "\<lparr>lvalue_place = \<lparr>place_identifier = sampleT1\<rparr>, lvalue_kind = InstrConst\<rparr>"
        and lvB = "\<lparr>lvalue_place = \<lparr>place_identifier = sampleT2\<rparr>, lvalue_kind = InstrConst\<rparr>"
        and use = "OtherValue [\<lparr>place_identifier = sampleT2\<rparr>]" and ero = sampleOperands
        and eio = sampleOperands and x = "''x''" and y = "''y''" and lvUse = None]
      p n d s r
    by (simp add: nextDependency_def qualifies_def currentScope_def rootId_def sampleT1_def
        sampleT2_def sampleProps_def sampleOperands_def del: visitItem.simps)
qed

lemma sampleNestedFn_run:
  "dependencies (store (propagateScopeDependencies (onlyReactive sampleObj) sampleOperands sampleOperands
      sampleNestedFn sampleStore) 7) = []"
proof -
  define c0 where "c0 = (initialContext (onlyReactive sampleObj) sampleNestedFn sampleStore)
      \<lparr>ctx_dependencies := [], scopes := scopes (initialContext (onlyReactive sampleObj) sampleNestedFn sampleStore) @ [3]\<rparr>"
  define c1 where "c1 = visitItem sampleOperands sampleOperands c0
      (sampleLet sampleObj (OtherValue [\<lparr>place_identifier = sampleProps\<rparr>]))"
  have run: "dependencies (store (propagateScopeDependencies (onlyReactive sampleObj) sampleOperands
      sampleOperands sampleNestedFn sampleStore) 7) =
      dependencies (store (visitItem sampleOperands sampleOperands c1 (sampleChain sampleObj)) 7)"
    by (simp add: propagateScopeDependencies_def c1_def c0_def sampleNestedFn_def
        sampleNestedBlock_def scope_item_other del: visitItem.simps)
  have p: "properties c1 sampleObj = None"
    and n: "next_ref c1 = 1"
    and d: "ctx_declarations c1 11 = Some \<lparr>kind = Dynamic, decl_id = 1, decl_scope = Some 3\<rparr>"
    and s: "scopes c1 = [3]"
    and r: "range_start (store c1 7) = 5"
    by (simp_all add: c1_def c0_def eval_defs sample_defs sample_defs3)
  show ?thesis
    unfolding run sampleChain_def sampleLet_def
    using chain_in_scope [where c = c1 and objP = "\<lparr>place_identifier = sampleObj\<rparr>"
        and S = 7 and t1P = "\<lparr>place_identifier = sampleT1\<rparr>"
        and t2P = "\<lparr>place_identifier = sampleT2\<rparr>"
        and lvA = "\<lparr>lvalue_place = \<lparr>place_identifier = sampleT1\<rparr>, lvalue_kind = InstrConst\<rparr>"
        and lvB = "\<lparr>lvalue_place = \<lparr>place_identifier = sampleT2\<rparr>, lvalue_kind = InstrConst\<rparr>"
        and use = "OtherValue [\<lparr>place_identifier = sampleT2\<rparr>]" and ero = sampleOperands
        and eio = sampleOperands and x = "''x''" and y = "''y''" and lvUse = None]
      p n d s r
    by (simp add: nextDependency_def qualifies_def currentScope_def rootId_def sampleT1_def
        sampleT2_def sampleObj_def sampleOperands_def del: visitItem.simps)
qed

lemma sampleAliasFn_obj:
  "ctx_declarations (visit sampleOperands sampleOperands
      (initialContext (onlyReactive sampleObj) sampleAliasFn sampleStore)
      (take 1 (body sampleAliasFn))) (identifier_id sampleObj) =
   Some \<lparr>kind = Dynamic, decl_id = 1, decl_scope = None\<rparr>"
  by (simp add: eval_defs sample_defs sample_defs3)

lemma sampleNestedFn_obj:
  "ctx_declarations (visit sampleOperands sampleOperands
      ((initialContext (onlyReactive sampleObj) sampleNestedFn sampleStore)\<lparr>scopes := [3]\<rparr>)
      (take 1 sampleNestedBlock)) (identifier_id sampleObj) =
   Some \<lparr>kind = Dynamic, decl_id = 1, decl_scope = Some 3\<rparr>"
  by (simp add: eval_defs sample_defs sample_defs3)


section \<open>The qualification test and the merge\<close>

text \<open>
  Claim C1. A call of \<^verbatim>\<open>visitDependency\<close> offers the resolved candidate to the working set of
  the current scope exactly when the qualification test holds: the current scope is
  non-null, a declaration record exists for the root, its kind is Dynamic, its defining
  instruction id is below the start of the current scope, and it has no owning scope or its
  owning scope is not on the scope stack. When the test fails the working set is left as it
  was.
\<close>

theorem qualification_test:
  "ctx_dependencies (visitDependency c dependency) =
     (if qualifies c (resolveAlias c dependency)
      then mergeDependency (ctx_dependencies c) (resolveAlias c dependency) (ctx_dependencies c)
      else ctx_dependencies c)"
  by (simp add: visitDependency_eq)

theorem qualification_test_witness:
  "qualifies sampleContext (sampleDep 0 None) \<and>
   ctx_dependencies (visitDependency sampleContext (sampleDep 0 None)) = [sampleDep 0 None] \<and>
   \<not> qualifies (sampleContext\<lparr>scopes := []\<rparr>) (sampleDep 0 None) \<and>
   ctx_dependencies (visitDependency (sampleContext\<lparr>scopes := []\<rparr>) (sampleDep 0 None)) = []"
  using qualification_test [of sampleContext "sampleDep 0 None"]
    qualification_test [of "sampleContext\<lparr>scopes := []\<rparr>" "sampleDep 0 None"]
  by (simp add: sample_defs qualifies_def resolveAlias_def currentScope_def rootId_def set_add_def)




text \<open>
  Claim C3. The subsumption check is asymmetric. Offering a path-qualified candidate never
  removes an entry of the working set. When the candidate qualifies and every entry with
  its root has a path that strictly extends the candidate's path (existing \<open>a.b.c\<close>,
  candidate \<open>a.b\<close>), the working set keeps its entries and gains the candidate, so the
  longer and the shorter entry are both present after the merge.
\<close>

theorem subsumption_asymmetry:
  assumes pc: "path cand = Some p"
  shows "set (ctx_dependencies c) \<subseteq> set (ctx_dependencies (visitDependency c cand)) \<and>
         (qualifies c cand \<longrightarrow>
          (\<forall>e\<in>set (ctx_dependencies c). rootId e = rootId cand \<longrightarrow>
             (\<exists>q. path e = Some q \<and> strict_prefix p q)) \<longrightarrow>
          ctx_dependencies (visitDependency c cand) = ctx_dependencies c @ [cand])"
proof (intro conjI impI)
  show "set (ctx_dependencies c) \<subseteq> set (ctx_dependencies (visitDependency c cand))"
    using pc by (auto simp: visitDependency_eq mergeDependency_path set_add_def)
next
  assume q: "qualifies c cand"
    and longer: "\<forall>e\<in>set (ctx_dependencies c). rootId e = rootId cand \<longrightarrow>
                   (\<exists>q. path e = Some q \<and> strict_prefix p q)"
  have "\<not> (\<exists>e\<in>set (ctx_dependencies c). rootId e = rootId cand \<and>
            (case path e of None \<Rightarrow> True | Some q \<Rightarrow> prefix q p))"
    using longer by (fastforce split: option.splits)
  moreover have "cand \<notin> set (ctx_dependencies c)"
    using longer pc by fastforce
  ultimately show "ctx_dependencies (visitDependency c cand) = ctx_dependencies c @ [cand]"
    using q pc by (simp add: visitDependency_eq mergeDependency_path set_add_def del: bex_simps)
qed

theorem subsumption_asymmetry_witness:
  "ctx_dependencies
     (visitDependency (sampleContext\<lparr>ctx_dependencies := [sampleDep 2 (Some [''b'', ''c''])]\<rparr>)
        (sampleDep 1 (Some [''b'']))) =
   [sampleDep 2 (Some [''b'', ''c'']), sampleDep 1 (Some [''b''])]"
  using subsumption_asymmetry [of "sampleDep 1 (Some [''b''])" "[''b'']"
      "sampleContext\<lparr>ctx_dependencies := [sampleDep 2 (Some [''b'', ''c''])]\<rparr>"]
  by (simp add: sample_defs qualifies_def currentScope_def rootId_def strict_prefix_def)

section \<open>Escape promotion\<close>




section \<open>What can root a dependency\<close>

text \<open>
  Claim C5, as amended. After the pass, every dependency that the pass stored in a scope is
  rooted at an identifier whose id is the id of a function parameter or the id of an
  instruction output that the reactivity analysis marks reactive. An identifier that the
  analysis marks non-reactive therefore roots a stored dependency only when its id is that
  of a parameter, which is declared Dynamic whatever the analysis says, or that of a
  reactive output.
\<close>

theorem dependency_roots:
  assumes "e \<in> set (dependencies (store (propagateScopeDependencies infer eio ero fn st) s))"
    and "e \<notin> set (dependencies (st s))"
  shows "rootId e \<in> parameterIds fn \<union> reactiveOutputIds infer fn"
  using propagate_roots [OF assms(1)] assms(2) by simp

theorem dependency_roots_witness:
  "\<lparr>dep_ref = 0, place = \<lparr>place_identifier = sampleProps\<rparr>, path = None\<rparr>
     \<in> set (dependencies (store (propagateScopeDependencies noneReactive sampleOperands
           sampleOperands sampleUseFn sampleStore) 7)) \<and>
   rootId \<lparr>dep_ref = 0, place = \<lparr>place_identifier = sampleProps\<rparr>, path = None\<rparr>
     \<in> parameterIds sampleUseFn \<union> reactiveOutputIds noneReactive sampleUseFn"
proof -
  have stored: "\<lparr>dep_ref = 0, place = \<lparr>place_identifier = sampleProps\<rparr>, path = None\<rparr>
      \<in> set (dependencies (store (propagateScopeDependencies noneReactive sampleOperands
            sampleOperands sampleUseFn sampleStore) 7))"
    by (simp add: sampleUseFn_run)
  have fresh: "\<lparr>dep_ref = 0, place = \<lparr>place_identifier = sampleProps\<rparr>, path = None\<rparr>
      \<notin> set (dependencies (sampleStore 7))"
    by (simp add: sampleStore_def sampleScope_def)
  from stored dependency_roots [OF stored fresh] show ?thesis
    by (rule conjI)
qed

text \<open>
  Claim C5 as it was stated includes parameters. A parameter that the analysis marks
  non-reactive and that is read in a scope is a dependency of that scope.
\<close>

theorem dependency_roots_counterexample:
  "sampleProps \<notin> noneReactive sampleUseFn \<and>
   dependencies (store (propagateScopeDependencies noneReactive sampleOperands sampleOperands
      sampleUseFn sampleStore) 7) =
     [\<lparr>dep_ref = 0, place = \<lparr>place_identifier = sampleProps\<rparr>, path = None\<rparr>]"
  by (simp add: sampleUseFn_run noneReactive_def)

section \<open>Chains of property loads\<close>

text \<open>
  Claim C6, as amended. For the instructions \<open>t1 = PropertyLoad(obj, x)\<close>,
  \<open>t2 = PropertyLoad(t1, y)\<close> and a use whose only operand is \<open>t2\<close>, all inside the scope
  item \<open>S\<close>, where \<open>obj\<close> is declared Dynamic before the start of \<open>S\<close>, has no owning scope
  or one that is neither open nor \<open>S\<close>, and has no recorded property alias, and where \<open>t2\<close> is
  anonymous and \<open>t1\<close>, \<open>t2\<close> have other ids than \<open>obj\<close>: the pass leaves exactly one
  dependency in \<open>S\<close>, with root \<open>obj\<close> and path \<open>[x, y]\<close>, so none is rooted at \<open>t1\<close> or
  \<open>t2\<close>.
\<close>

theorem property_chain_compression:
  assumes decl: "ctx_declarations c (identifier_id (place_identifier objP)) = Some d"
    and dyn: "kind d = Dynamic"
    and before: "decl_id d < range_start (store c S)"
    and owner: "case decl_scope d of None \<Rightarrow> True | Some s \<Rightarrow> s \<notin> set (scopes c) \<and> s \<noteq> S"
    and noalias: "properties c (place_identifier objP) = None"
    and t1: "place_identifier (lvalue_place lvA) = place_identifier t1P"
    and t2: "place_identifier (lvalue_place lvB) = place_identifier t2P"
    and anon: "name (place_identifier t2P) = None"
    and id1: "identifier_id (place_identifier t1P) \<noteq> identifier_id (place_identifier objP)"
    and id2: "identifier_id (place_identifier t2P) \<noteq> identifier_id (place_identifier objP)"
    and notload: "\<forall>object property. use \<noteq> PropertyLoad object property"
    and operands: "ero use = [t2P]"
  shows "dependencies (store (visitItem eio ero c (ScopeItem S
           [InstructionItem (ReactiveInstruction (Some lvA) (PropertyLoad objP x)),
            InstructionItem (ReactiveInstruction (Some lvB) (PropertyLoad t1P y)),
            InstructionItem (ReactiveInstruction lvUse use)])) S) =
         [\<lparr>dep_ref = Suc (next_ref c), place = objP, path = Some [x, y]\<rparr>]"
proof -
  have a1: "nextDependency c objP x = \<lparr>dep_ref = next_ref c, place = objP, path = Some [x]\<rparr>"
    using noalias by (simp add: nextDependency_def)
  have "qualifies (c\<lparr>scopes := scopes c @ [S]\<rparr>)
          \<lparr>dep_ref = Suc (next_ref c), place = objP, path = Some [x, y]\<rparr>"
    using decl dyn before owner
    by (simp add: qualifies_def currentScope_def rootId_def split: option.splits)
  then show ?thesis
    using chain_in_scope [where c = c and objP = objP and x = x and y = y and S = S
        and eio = eio and ero = ero and use = use and lvUse = lvUse,
        OF t1 t2 anon _ _ notload operands] id1 id2
    by (simp add: a1 rootId_def)
qed

theorem property_chain_compression_witness:
  "dependencies (store (visitItem sampleOperands sampleOperands (sampleContext\<lparr>scopes := []\<rparr>)
      (sampleChain sampleA)) 7) =
   [\<lparr>dep_ref = 4, place = \<lparr>place_identifier = sampleA\<rparr>, path = Some [''x'', ''y'']\<rparr>]"
  using property_chain_compression [where c = "sampleContext\<lparr>scopes := []\<rparr>"
      and objP = "\<lparr>place_identifier = sampleA\<rparr>"
      and d = "\<lparr>kind = Dynamic, decl_id = 0, decl_scope = None\<rparr>" and S = 7
      and t1P = "\<lparr>place_identifier = sampleT1\<rparr>" and t2P = "\<lparr>place_identifier = sampleT2\<rparr>"
      and lvA = "\<lparr>lvalue_place = \<lparr>place_identifier = sampleT1\<rparr>, lvalue_kind = InstrConst\<rparr>"
      and lvB = "\<lparr>lvalue_place = \<lparr>place_identifier = sampleT2\<rparr>, lvalue_kind = InstrConst\<rparr>"
      and use = "OtherValue [\<lparr>place_identifier = sampleT2\<rparr>]" and ero = sampleOperands
      and eio = sampleOperands and x = "''x''" and y = "''y''"]
  by (simp add: sample_defs sample_defs3 del: visitItem.simps)

text \<open>
  Claim C6 as it was stated asks only that \<open>obj\<close> be Dynamic and declared before the start
  of \<open>S\<close>. It fails when \<open>obj\<close> has a property alias of its own: with \<open>obj = props.a\<close> loaded
  before scope 7, which starts at instruction 5, \<open>obj\<close> is declared Dynamic at instruction 1
  and the one dependency of the scope is rooted at \<open>props\<close>, with path \<open>[a, x, y]\<close>. It also
  fails when \<open>obj\<close> was declared inside an enclosing scope that is still open: no dependency
  is recorded.
\<close>

theorem property_chain_compression_counterexample:
  "ctx_declarations (visit sampleOperands sampleOperands
      (initialContext (onlyReactive sampleObj) sampleAliasFn sampleStore)
      (take 1 (body sampleAliasFn))) (identifier_id sampleObj) =
     Some \<lparr>kind = Dynamic, decl_id = 1, decl_scope = None\<rparr> \<and>
   range_start (sampleStore 7) = 5 \<and>
   dependencies (store (propagateScopeDependencies (onlyReactive sampleObj) sampleOperands
      sampleOperands sampleAliasFn sampleStore) 7) =
     [\<lparr>dep_ref = 2, place = \<lparr>place_identifier = sampleProps\<rparr>, path = Some [''a'', ''x'', ''y'']\<rparr>] \<and>
   ctx_declarations (visit sampleOperands sampleOperands
      ((initialContext (onlyReactive sampleObj) sampleNestedFn sampleStore)\<lparr>scopes := [3]\<rparr>)
      (take 1 sampleNestedBlock)) (identifier_id sampleObj) =
     Some \<lparr>kind = Dynamic, decl_id = 1, decl_scope = Some 3\<rparr> \<and>
   dependencies (store (propagateScopeDependencies (onlyReactive sampleObj) sampleOperands
      sampleOperands sampleNestedFn sampleStore) 7) = []"
proof -
  have start: "range_start (sampleStore 7) = 5"
    by (simp add: sampleStore_def sampleScope_def)
  show ?thesis
    by (simp only: sampleAliasFn_obj sampleAliasFn_run sampleNestedFn_obj sampleNestedFn_run start
        simp_thms)
qed

section \<open>Alias resolution\<close>

text \<open>
  Claim C7. Alias resolution substitutes only for anonymous temporaries. A whole-value
  operand whose identifier is anonymous and has a recorded alias is visited as that alias,
  used as it is. An operand whose identifier has a name is visited as itself even when an
  alias is recorded for it, so the only entry the call can add to the working set is the
  operand itself; and an operand that carries a path is never alias-resolved.
\<close>

theorem alias_resolution_anonymous_only:
  "(path d = None \<and> name (place_identifier (place d)) = None \<and>
      properties c (place_identifier (place d)) = Some alias \<longrightarrow>
        visitDependency c d = visitAsIs c alias) \<and>
   (name (place_identifier (place d)) \<noteq> None \<longrightarrow>
      visitDependency c d = visitAsIs c d \<and>
      set (ctx_dependencies (visitDependency c d)) \<subseteq> insert d (set (ctx_dependencies c))) \<and>
   (path d \<noteq> None \<longrightarrow> visitDependency c d = visitAsIs c d)"
  using mergeDependency_subset [of "ctx_dependencies c" d "ctx_dependencies c"]
  by (auto simp: visitDependency_visitAsIs resolveAlias_def visitAsIs_eq)

theorem alias_resolution_anonymous_only_witness:
  "ctx_dependencies (visitDependency sampleAliased
      \<lparr>dep_ref = 5, place = \<lparr>place_identifier = sampleT\<rparr>, path = None\<rparr>) =
     [sampleDep 1 (Some [''b''])] \<and>
   ctx_dependencies (visitDependency sampleAliased (sampleDep 0 None)) = [sampleDep 0 None]"
  using alias_resolution_anonymous_only [of "\<lparr>dep_ref = 5, place = \<lparr>place_identifier = sampleT\<rparr>, path = None\<rparr>"
      sampleAliased "sampleDep 1 (Some [''b''])"]
    alias_resolution_anonymous_only [of "sampleDep 0 None" sampleAliased
      "sampleDep 1 (Some [''b''])"]
  by (simp add: sample_defs sample_defs2 visitAsIs_eq qualifies_def currentScope_def rootId_def
      set_add_def)

section \<open>Reassignment tracking\<close>

text \<open>
  Claim C8. \<^verbatim>\<open>visitReassignment\<close> adds the identifier to the reassignments of the current
  scope exactly when the output is a reassignment, the current scope is non-null, the
  identifier has an owning scope, a declaration record exists for it and the scope that
  record holds differs from the identifier's owning scope; otherwise it changes nothing.
  Reassignments is a set: a second reassignment of the same identifier in the same scope
  changes nothing, and the identifier is held once.
\<close>

theorem reassignment_tracking:
  "(\<not> reassigns c lvalue \<longrightarrow> visitReassignment c lvalue = c) \<and>
   (reassigns c lvalue \<longrightarrow>
      (\<exists>cs. currentScope c = Some cs \<and>
         visitReassignment c lvalue =
           c\<lparr>store := (store c)(cs := (store c cs)
               \<lparr>reassignments := set_add (place_identifier (lvalue_place lvalue))
                  (reassignments (store c cs))\<rparr>)\<rparr> \<and>
         place_identifier (lvalue_place lvalue) \<in>
           set (reassignments (store (visitReassignment c lvalue) cs)) \<and>
         (distinct (reassignments (store c cs)) \<longrightarrow>
            count_list (reassignments
              (store (visitReassignment (visitReassignment c lvalue) lvalue) cs))
              (place_identifier (lvalue_place lvalue)) = 1))) \<and>
   visitReassignment (visitReassignment c lvalue) lvalue = visitReassignment c lvalue"
proof (cases "reassigns c lvalue")
  case False
  then show ?thesis by (simp add: visitReassignment_eq)
next
  case True
  then obtain cs where cs: "currentScope c = Some cs"
    by (cases "currentScope c") (auto simp: reassigns_def)
  have cs': "\<And>st. currentScope (c\<lparr>store := st\<rparr>) = Some cs"
    using cs by simp
  show ?thesis
    using True cs
    by (simp add: visitReassignment_eq cs' set_add_idem count_list_set_add) (simp add: set_add_def)
qed

theorem reassignment_tracking_witness:
  "reassigns sampleReassigning \<lparr>lvalue_place = \<lparr>place_identifier = sampleX\<rparr>, lvalue_kind = InstrReassign\<rparr> \<and>
   reassignments (store (visitReassignment sampleReassigning
      \<lparr>lvalue_place = \<lparr>place_identifier = sampleX\<rparr>, lvalue_kind = InstrReassign\<rparr>) 7) = [sampleX] \<and>
   reassignments (store (visitReassignment (visitReassignment sampleReassigning
      \<lparr>lvalue_place = \<lparr>place_identifier = sampleX\<rparr>, lvalue_kind = InstrReassign\<rparr>)
      \<lparr>lvalue_place = \<lparr>place_identifier = sampleX\<rparr>, lvalue_kind = InstrReassign\<rparr>) 7) = [sampleX] \<and>
   visitReassignment sampleReassigning
      \<lparr>lvalue_place = \<lparr>place_identifier = sampleX\<rparr>, lvalue_kind = InstrLet\<rparr> = sampleReassigning"
  using reassignment_tracking [of sampleReassigning
      "\<lparr>lvalue_place = \<lparr>place_identifier = sampleX\<rparr>, lvalue_kind = InstrReassign\<rparr>"]
    reassignment_tracking [of sampleReassigning
      "\<lparr>lvalue_place = \<lparr>place_identifier = sampleX\<rparr>, lvalue_kind = InstrLet\<rparr>"]
  by (auto simp: sample_defs sample_defs2 reassigns_def currentScope_def set_add_def)

section \<open>Parameters and the function's own identifier\<close>

text \<open>
  Claim C9, as amended. Before the traversal begins every parameter is declared Dynamic at
  instruction id 0 with no owning scope, whatever the reactivity analysis says. While that
  record stands, a candidate rooted at the parameter qualifies in the current scope exactly
  when the scope starts after instruction id 0. The function's own identifier, when present
  and not also the id of a parameter, is declared Const at instruction id 0; a candidate
  whose root has a Const record leaves the working set unchanged; and when no instruction
  output with the id of the function's identifier is marked reactive, no dependency that
  the pass stores in a scope is rooted at it.
\<close>

theorem parameters_and_function_identifier:
  "(\<forall>p\<in>set (params fn).
      ctx_declarations (initialContext infer fn st) (identifier_id (place_identifier p)) =
        Some \<lparr>kind = Dynamic, decl_id = 0, decl_scope = None\<rparr>) \<and>
   (\<forall>c cand S.
      ctx_declarations c (rootId cand) = Some \<lparr>kind = Dynamic, decl_id = 0, decl_scope = None\<rparr> \<longrightarrow>
      currentScope c = Some S \<longrightarrow> qualifies c cand = (0 < range_start (store c S))) \<and>
   (\<forall>c dep d.
      ctx_declarations c (rootId (resolveAlias c dep)) = Some d \<longrightarrow> kind d = Const \<longrightarrow>
      ctx_dependencies (visitDependency c dep) = ctx_dependencies c) \<and>
   (\<forall>f. fn_id fn = Some f \<longrightarrow> identifier_id f \<notin> parameterIds fn \<longrightarrow>
      ctx_declarations (initialContext infer fn st) (identifier_id f) =
        Some \<lparr>kind = Const, decl_id = 0, decl_scope = None\<rparr> \<and>
      (identifier_id f \<notin> reactiveOutputIds infer fn \<longrightarrow>
         (\<forall>s. \<forall>e\<in>set (dependencies (store (propagateScopeDependencies infer eio ero fn st) s)).
            e \<in> set (dependencies (st s)) \<or> rootId e \<noteq> identifier_id f)))"
proof -
  have a: "ctx_declarations (initialContext infer fn st) (identifier_id (place_identifier p)) =
             Some \<lparr>kind = Dynamic, decl_id = 0, decl_scope = None\<rparr>" if "p \<in> set (params fn)" for p
    using that by (simp add: initialContext_declarations parameterIds_def)
  have b: "qualifies c cand = (0 < range_start (store c S))"
    if "ctx_declarations c (rootId cand) = Some \<lparr>kind = Dynamic, decl_id = 0, decl_scope = None\<rparr>"
      "currentScope c = Some S" for c cand S
    using that by (simp add: qualifies_def)
  have k: "ctx_dependencies (visitDependency c dep) = ctx_dependencies c"
    if "ctx_declarations c (rootId (resolveAlias c dep)) = Some d" "kind d = Const" for c dep d
    using that by (simp add: visitDependency_eq qualifies_def split: option.splits)
  have c: "ctx_declarations (initialContext infer fn st) (identifier_id f) =
             Some \<lparr>kind = Const, decl_id = 0, decl_scope = None\<rparr>"
    if "fn_id fn = Some f" "identifier_id f \<notin> parameterIds fn" for f
    using that by (simp add: initialContext_declarations)
  have d: "e \<in> set (dependencies (st s)) \<or> rootId e \<noteq> identifier_id f"
    if "identifier_id f \<notin> parameterIds fn" "identifier_id f \<notin> reactiveOutputIds infer fn"
      "e \<in> set (dependencies (store (propagateScopeDependencies infer eio ero fn st) s))" for f s e
    using propagate_roots [OF that(3)] that(1,2) by auto
  show ?thesis
    using a b k c d by blast
qed

theorem parameters_and_function_identifier_witness:
  "ctx_declarations (initialContext noneReactive sampleSelfFn sampleStore) (identifier_id sampleProps) =
     Some \<lparr>kind = Dynamic, decl_id = 0, decl_scope = None\<rparr> \<and>
   ctx_declarations (initialContext noneReactive sampleSelfFn sampleStore) (identifier_id sampleF) =
     Some \<lparr>kind = Const, decl_id = 0, decl_scope = None\<rparr> \<and>
   identifier_id sampleF \<notin>
     rootId ` set (dependencies (store (propagateScopeDependencies noneReactive sampleOperands
        sampleOperands sampleSelfFn sampleStore) 7))"
proof -
  note whole = parameters_and_function_identifier [of sampleSelfFn noneReactive sampleStore
      sampleOperands sampleOperands]
  have param: "\<lparr>place_identifier = sampleProps\<rparr> \<in> set (params sampleSelfFn)"
    and own: "fn_id sampleSelfFn = Some sampleF"
    and other: "identifier_id sampleF \<notin> parameterIds sampleSelfFn"
    and unreactive: "identifier_id sampleF \<notin> reactiveOutputIds noneReactive sampleSelfFn"
    by (simp_all add: sampleSelfFn_def parameterIds_def reactiveOutputIds_def sampleF_def
        sampleProps_def noneReactive_def)
  have empty: "dependencies (sampleStore 7) = []"
    by (simp add: sampleStore_def sampleScope_def)
  from whole param have one: "ctx_declarations (initialContext noneReactive sampleSelfFn sampleStore)
      (identifier_id (place_identifier \<lparr>place_identifier = sampleProps\<rparr>)) =
      Some \<lparr>kind = Dynamic, decl_id = 0, decl_scope = None\<rparr>"
    by blast
  from whole own other have two: "ctx_declarations (initialContext noneReactive sampleSelfFn sampleStore)
      (identifier_id sampleF) = Some \<lparr>kind = Const, decl_id = 0, decl_scope = None\<rparr>"
    by blast
  from whole own other unreactive
  have "\<forall>e\<in>set (dependencies (store (propagateScopeDependencies noneReactive sampleOperands
            sampleOperands sampleSelfFn sampleStore) 7)).
          e \<in> set (dependencies (sampleStore 7)) \<or> rootId e \<noteq> identifier_id sampleF"
    by blast
  then have three: "identifier_id sampleF \<notin>
      rootId ` set (dependencies (store (propagateScopeDependencies noneReactive sampleOperands
         sampleOperands sampleSelfFn sampleStore) 7))"
    by (auto simp: empty)
  from one two three show ?thesis
    by simp
qed

text \<open>
  Claim C9 as it was stated says that the function's identifier can never become a
  dependency and that a parameter passes the declared-before check of any scope. A function
  that reassigns its own name with a reactive value and then reads it in a scope has it as
  a dependency of that scope; and a parameter read in a scope that starts at instruction
  id 0 is not a dependency of it.
\<close>

theorem parameters_and_function_identifier_counterexample:
  "fn_id sampleSelfFn = Some sampleF \<and>
   dependencies (store (propagateScopeDependencies (onlyReactive sampleF) sampleOperands sampleOperands
      sampleSelfFn sampleStore) 7) =
     [\<lparr>dep_ref = 1, place = \<lparr>place_identifier = sampleF\<rparr>, path = None\<rparr>] \<and>
   params sampleUseFn = [\<lparr>place_identifier = sampleProps\<rparr>] \<and>
   dependencies (store (propagateScopeDependencies noneReactive sampleOperands sampleOperands
      sampleUseFn sampleStoreZero) 7) = []"
proof -
  have own: "fn_id sampleSelfFn = Some sampleF"
    by (simp add: sampleSelfFn_def)
  have param: "params sampleUseFn = [\<lparr>place_identifier = sampleProps\<rparr>]"
    by (simp add: sampleUseFn_def)
  show ?thesis
    by (simp add: own param sampleSelfFn_run sampleUseFn_run_from_zero)
qed

section \<open>Property loads\<close>

text \<open>
  Claim C10. Visiting a \<^verbatim>\<open>PropertyLoad\<close> that has an output binding only records a property
  alias for the output: the object operand is not visited. The whole instruction leaves the
  working set, and the dependencies and the declarations of every scope, as they were, so
  the load by itself contributes no dependency and no escape entry for the object, also
  when the object was declared in a scope that has closed. The object is visited through
  \<^verbatim>\<open>visitProperty\<close> only when the \<^verbatim>\<open>PropertyLoad\<close> has no output binding.
\<close>

theorem property_load_records_alias_only:
  "visitInstructionValue ero c (PropertyLoad object property) (Some lv) =
     c\<lparr>properties := (properties c)(place_identifier (lvalue_place lv) \<mapsto>
          nextDependency c object property),
       next_ref := Suc (next_ref c)\<rparr> \<and>
   ctx_dependencies (visitInstruction ero c
      (ReactiveInstruction (Some lv) (PropertyLoad object property))) = ctx_dependencies c \<and>
   (\<forall>s. dependencies (store (visitInstruction ero c
            (ReactiveInstruction (Some lv) (PropertyLoad object property))) s) =
          dependencies (store c s) \<and>
        declarations (store (visitInstruction ero c
            (ReactiveInstruction (Some lv) (PropertyLoad object property))) s) =
          declarations (store c s)) \<and>
   visitInstructionValue ero c (PropertyLoad object property) None = visitProperty c object property"
  by (simp add: visitInstruction_load declare_decl_def)
     (simp add: visitInstructionValue_def declareProperty_def)

theorem property_load_records_alias_only_witness:
  "ctx_dependencies (visitInstruction sampleOperands sampleEscaped
      (ReactiveInstruction (Some \<lparr>lvalue_place = \<lparr>place_identifier = sampleT\<rparr>, lvalue_kind = InstrConst\<rparr>)
         (PropertyLoad \<lparr>place_identifier = sampleA\<rparr> ''b''))) = [] \<and>
   declarations (store (visitInstruction sampleOperands sampleEscaped
      (ReactiveInstruction (Some \<lparr>lvalue_place = \<lparr>place_identifier = sampleT\<rparr>, lvalue_kind = InstrConst\<rparr>)
         (PropertyLoad \<lparr>place_identifier = sampleA\<rparr> ''b''))) 3) = [] \<and>
   declarations (store (visitInstructionValue sampleOperands sampleEscaped
      (PropertyLoad \<lparr>place_identifier = sampleA\<rparr> ''b'') None) 3) = [(1, sampleA)]"
  using property_load_records_alias_only [of sampleOperands sampleEscaped "\<lparr>place_identifier = sampleA\<rparr>" "''b''"
      "\<lparr>lvalue_place = \<lparr>place_identifier = sampleT\<rparr>, lvalue_kind = InstrConst\<rparr>"]
  by (simp add: visitProperty_def nextDependency_def visitDependency_eq resolveAlias_def
      promoteEscape_def rootId_def sample_defs sample_defs2)

end
